theory Spec2Isabelle
  imports Main "HOL-Library.Word"
begin

unbundle bit_operations_syntax

section \<open>Errors\<close>

text \<open>
  Go errors are values. \<open>New\<close> is \<^verbatim>\<open>errors.New\<close>, \<open>Errorf\<close> is \<^verbatim>\<open>fmt.Errorf\<close> with its
  format string, its string operands and the error it wraps, \<open>AWSError\<close> is an
  \<^verbatim>\<open>awserr.Error\<close> with its code and message, \<open>NumError\<close> is \<^verbatim>\<open>*strconv.NumError\<close>
  with the offending text, \<open>OtherError\<close> any other error a call of the SDK returns (a
  network failure, say). A run-time panic (a failed type assertion) is the value
  \<open>Panic\<close>: it is not a returned error, and no caller of this file recovers from it.
\<close>

datatype numerr = ErrSyntax | ErrRange

datatype error =
    New string
  | Errorf string "string list" "error option"
  | AWSError string string
  | NumError string numerr
  | OtherError string
  | Panic string

section \<open>The priority validator\<close>

text \<open>
  \<^verbatim>\<open>validateAwsLbListenerRulePriority(v interface{}, k string) (ws []string, errors []error)\<close>:
  the value is the \<^verbatim>\<open>int\<close> the schema delivers for a \<^verbatim>\<open>TypeInt\<close> attribute.
\<close>

definition validateAwsLbListenerRulePriority :: "int \<Rightarrow> string \<Rightarrow> string list \<times> error list" where
  "validateAwsLbListenerRulePriority v k =
     (let val = v; ws = []; errors = [] in
      if val < 1 \<or> (val > 50000 \<and> val \<noteq> 99999)
      then (ws, errors @ [Errorf ''%q must be in the range 1-50000 for normal rule or 99999 for default rule'' [k] None])
      else (ws, errors))"

section \<open>The schema side: a condition block as Terraform delivers it\<close>

text \<open>
  An element of the \<^verbatim>\<open>condition\<close> set is a \<^verbatim>\<open>map[string]interface{}\<close> holding every key
  of the schema (lines 284 to 440) with the type the schema declares: the schema layer of
  Terraform, which is not part of this repository, fills a block that is not set with the
  empty list. The nested blocks are lists of at most one element (\<^verbatim>\<open>MaxItems: 1\<close>), and an
  element of such a list is either a map or \<^verbatim>\<open>nil\<close>, which the hash function below tests
  for: a list element is an \<open>option\<close>.
\<close>

datatype ValuesBlock = ValuesBlock (block_values: "string list")

datatype HttpHeaderBlock =
  HttpHeaderBlock (http_header_name: string) (http_header_values: "string list")

datatype QueryStringPair = QueryStringPair (pair_key: string) (pair_value: string)

datatype QueryStringBlock = QueryStringBlock (query_string_values: "QueryStringPair list")

record condition =
  field :: string
  host_header :: "ValuesBlock option list"
  http_header :: "HttpHeaderBlock option list"
  http_request_method :: "ValuesBlock option list"
  path_pattern :: "ValuesBlock option list"
  query_string :: "QueryStringBlock option list"
  source_ip :: "ValuesBlock option list"
  values' :: "string list"

section \<open>The AWS side: \<^verbatim>\<open>elbv2.RuleCondition\<close>\<close>

text \<open>
  The SDK's structs. A \<^verbatim>\<open>*string\<close> is a \<open>string option\<close>, a \<^verbatim>\<open>[]*string\<close> a list of
  them (the nil slice and the empty slice are both \<open>[]\<close>), a pointer to a config struct
  an \<open>option\<close>. The elements of \<^verbatim>\<open>QueryStringConfig.Values\<close> are taken non-nil, as the
  SDK unmarshals them.
\<close>

datatype HostHeaderConditionConfig =
  HostHeaderConditionConfig (HostHeader_Values: "string option list")

datatype HttpHeaderConditionConfig =
  HttpHeaderConditionConfig (HttpHeaderName: "string option") (HttpHeader_Values: "string option list")

datatype HttpRequestMethodConditionConfig =
  HttpRequestMethodConditionConfig (HttpRequestMethod_Values: "string option list")

datatype PathPatternConditionConfig =
  PathPatternConditionConfig (PathPattern_Values: "string option list")

datatype QueryStringKeyValuePair =
  QueryStringKeyValuePair (Key: "string option") (Value: "string option")

datatype QueryStringConditionConfig =
  QueryStringConditionConfig (QueryString_Values: "QueryStringKeyValuePair list")

datatype SourceIpConditionConfig =
  SourceIpConditionConfig (SourceIp_Values: "string option list")

record RuleCondition =
  Field :: "string option"
  HostHeaderConfig :: "HostHeaderConditionConfig option"
  HttpHeaderConfig :: "HttpHeaderConditionConfig option"
  HttpRequestMethodConfig :: "HttpRequestMethodConditionConfig option"
  PathPatternConfig :: "PathPatternConditionConfig option"
  QueryStringConfig :: "QueryStringConditionConfig option"
  SourceIpConfig :: "SourceIpConditionConfig option"
  Values :: "string option list"

text \<open>\<^verbatim>\<open>aws.String\<close>, \<^verbatim>\<open>aws.StringValue\<close> and \<^verbatim>\<open>aws.StringValueSlice\<close> of the SDK.\<close>

definition aws_String :: "string \<Rightarrow> string option" where
  "aws_String s = Some s"

definition StringValue :: "string option \<Rightarrow> string" where
  "StringValue p = (case p of None \<Rightarrow> [] | Some s \<Rightarrow> s)"

definition StringValueSlice :: "string option list \<Rightarrow> string list" where
  "StringValueSlice ps = map StringValue ps"

text \<open>
  Modelled from the spec: \<^verbatim>\<open>interfaceStringSlice\<close> is a helper of this repository that is
  not among the source files. The spec describes the expand direction as a one-to-one
  field mapping from the schema's untyped values to the SDK's typed ones, so the helper
  turns a \<^verbatim>\<open>[]interface{}\<close> of strings into the \<^verbatim>\<open>[]*string\<close> of the same strings in the
  same order.
\<close>

definition interfaceStringSlice :: "string list \<Rightarrow> string option list" where
  "interfaceStringSlice vs = map aws_String vs"

section \<open>The hash of a condition block\<close>

text \<open>
  \<^verbatim>\<open>hashcode.String\<close> of Terraform's helper library is the IEEE CRC-32 of the bytes, read
  as an \<^verbatim>\<open>int\<close> (64 bits wide on the platforms the acceptance tests' hashes are taken
  from, so the value is never negative and the two fall-back branches are dead).
  \<^verbatim>\<open>crc32.ChecksumIEEE\<close> is computed here bit by bit with the reflected polynomial
  \<open>0xEDB88320\<close>.
\<close>

fun crc32_bits :: "nat \<Rightarrow> 32 word \<Rightarrow> 32 word" where
  "crc32_bits 0 c = c"
| "crc32_bits (Suc n) c =
     crc32_bits n (if c AND 1 = 1 then drop_bit 1 c XOR 0xEDB88320 else drop_bit 1 c)"

definition crc32_byte :: "32 word \<Rightarrow> char \<Rightarrow> 32 word" where
  "crc32_byte c b = crc32_bits 8 (c XOR word_of_nat (of_char b))"

definition ChecksumIEEE :: "string \<Rightarrow> 32 word" where
  "ChecksumIEEE s = foldl crc32_byte 0xFFFFFFFF s XOR 0xFFFFFFFF"

definition hashcode_String :: "string \<Rightarrow> int" where
  "hashcode_String s =
     (let v = uint (ChecksumIEEE s) in
      if v \<ge> 0 then v
      else if - v \<ge> 0 then - v
      else 0)"

text \<open>
  \<^verbatim>\<open>fmt.Fprint(&buf, l, "-")\<close> in a \<^verbatim>\<open>for _, l := range\<close> loop over strings: each value
  followed by a dash (no space is inserted between operands that are strings).
\<close>

definition fprint_values :: "string list \<Rightarrow> string" where
  "fprint_values ls = concat (map (\<lambda>l. l @ ''-'') ls)"

text \<open>
  The text that \<^verbatim>\<open>lbListenerRuleConditionSetHash\<close> builds in \<^verbatim>\<open>buf\<close> (lines 450 to 534):
  the field and a dash, then what each of the six \<^verbatim>\<open>if\<close> statements appends, in the
  source's order. The deprecated top-level list is the key \<^verbatim>\<open>"values"\<close> of the map; the
  record names it \<open>values'\<close>.
\<close>

definition lbListenerRuleConditionSetHash_buf :: "condition \<Rightarrow> string" where
  "lbListenerRuleConditionSetHash_buf m =
     (field m @ ''-'')
     @ (if field m = ''host-header'' then
          (let hostHeader = host_header m in
           if length hostHeader > 0 then
             (case hd hostHeader of
                Some hostHeaderMap \<Rightarrow> fprint_values (block_values hostHeaderMap)
              | None \<Rightarrow> [])
           else fprint_values (values' m))
        else [])
     @ (if field m = ''http-header'' then
          (let httpHeader = http_header m in
           if length httpHeader > 0 \<and> hd httpHeader \<noteq> None then
             (let httpHeaderMap = the (hd httpHeader) in
              (http_header_name httpHeaderMap @ ''-'') @ fprint_values (http_header_values httpHeaderMap))
           else [])
        else [])
     @ (if field m = ''http-request-method'' then
          (let httpRequestMethod = http_request_method m in
           if length httpRequestMethod > 0 \<and> hd httpRequestMethod \<noteq> None then
             fprint_values (block_values (the (hd httpRequestMethod)))
           else [])
        else [])
     @ (if field m = ''path-pattern'' then
          (let pathPattern = path_pattern m in
           if length pathPattern > 0 then
             (case hd pathPattern of
                Some pathPatternMap \<Rightarrow> fprint_values (block_values pathPatternMap)
              | None \<Rightarrow> [])
           else fprint_values (values' m))
        else [])
     @ (if field m = ''query-string'' then
          (let queryString = query_string m in
           if length queryString > 0 \<and> hd queryString \<noteq> None then
             concat (map (\<lambda>l. pair_key l @ ''-'' @ pair_value l @ ''-'')
                         (query_string_values (the (hd queryString))))
           else [])
        else [])
     @ (if field m = ''source-ip'' then
          (let sourceIp = source_ip m in
           if length sourceIp > 0 \<and> hd sourceIp \<noteq> None then
             fprint_values (block_values (the (hd sourceIp)))
           else [])
        else [])"

definition lbListenerRuleConditionSetHash :: "condition \<Rightarrow> int" where
  "lbListenerRuleConditionSetHash v = hashcode_String (lbListenerRuleConditionSetHash_buf v)"

section \<open>Expanding condition blocks into rule conditions\<close>

text \<open>
  \<^verbatim>\<open>hostHeader[0].(map[string]interface{})\<close> is a type assertion in its one-result form:
  on a \<^verbatim>\<open>nil\<close> element it panics. Unlike the hash function, the expansion does not test
  the element first.
\<close>

definition assertMap :: "'a option \<Rightarrow> error + 'a" where
  "assertMap x =
     (case x of
        None \<Rightarrow> Inl (Panic ''interface conversion: interface {} is nil, not map[string]interface {}'')
      | Some m \<Rightarrow> Inr m)"

definition emptyRuleCondition :: "string \<Rightarrow> RuleCondition" where
  "emptyRuleCondition f =
     \<lparr>Field = aws_String f, HostHeaderConfig = None, HttpHeaderConfig = None,
      HttpRequestMethodConfig = None, PathPatternConfig = None, QueryStringConfig = None,
      SourceIpConfig = None, Values = []\<rparr>"

text \<open>The inner loop of the \<^verbatim>\<open>query-string\<close> case (lines 1295 to 1304).\<close>

definition queryStringKeyValuePair :: "QueryStringPair \<Rightarrow> QueryStringKeyValuePair" where
  "queryStringKeyValuePair valuePair =
     (let elbValuePair = QueryStringKeyValuePair None (aws_String (pair_value valuePair)) in
      if pair_key valuePair \<noteq> []
      then QueryStringKeyValuePair (aws_String (pair_key valuePair)) (Value elbValuePair)
      else elbValuePair)"

text \<open>
  The body of the loop of \<^verbatim>\<open>lbListenerRuleConditions\<close> (lines 1226 to 1315) for one
  condition: \<open>Inl\<close> of a \<open>New\<close> error where the source returns \<^verbatim>\<open>nil, errors.New(...)\<close>,
  \<open>Inl\<close> of a \<open>Panic\<close> where a type assertion fails, \<open>Inr\<close> of the element it stores in
  \<^verbatim>\<open>elbConditions[i]\<close> otherwise. A field that is none of the six literals of the
  \<^verbatim>\<open>switch\<close> leaves the element with its \<^verbatim>\<open>Field\<close> only.
\<close>

definition lbListenerRuleCondition :: "condition \<Rightarrow> error + RuleCondition" where
  "lbListenerRuleCondition conditionMap =
     (let conditionValues = values' conditionMap;
          elbCondition = emptyRuleCondition (field conditionMap) in
      if field conditionMap = ''host-header'' then
        (let hostHeader = host_header conditionMap in
         if length hostHeader > 0 then
           (case assertMap (hd hostHeader) of
              Inl e \<Rightarrow> Inl e
            | Inr b \<Rightarrow> Inr (elbCondition\<lparr>HostHeaderConfig :=
                Some (HostHeaderConditionConfig (interfaceStringSlice (block_values b)))\<rparr>))
         else if length conditionValues > 0 then
           Inr (elbCondition\<lparr>HostHeaderConfig :=
                Some (HostHeaderConditionConfig (interfaceStringSlice conditionValues))\<rparr>)
         else Inl (New ''host_header must be set when condition field is host-header''))
      else if field conditionMap = ''http-header'' then
        (let httpHeader = http_header conditionMap in
         if length httpHeader = 0 then
           Inl (New ''http_header must be set when condition field is http-header'')
         else
           (case assertMap (hd httpHeader) of
              Inl e \<Rightarrow> Inl e
            | Inr httpHeaderMap \<Rightarrow> Inr (elbCondition\<lparr>HttpHeaderConfig :=
                Some (HttpHeaderConditionConfig (aws_String (http_header_name httpHeaderMap))
                        (interfaceStringSlice (http_header_values httpHeaderMap)))\<rparr>)))
      else if field conditionMap = ''http-request-method'' then
        (let httpRequestMethod = http_request_method conditionMap in
         if length httpRequestMethod = 0 then
           Inl (New ''http_request_method must be set when condition field is http-request-method'')
         else
           (case assertMap (hd httpRequestMethod) of
              Inl e \<Rightarrow> Inl e
            | Inr b \<Rightarrow> Inr (elbCondition\<lparr>HttpRequestMethodConfig :=
                Some (HttpRequestMethodConditionConfig (interfaceStringSlice (block_values b)))\<rparr>)))
      else if field conditionMap = ''path-pattern'' then
        (let pathPattern = path_pattern conditionMap in
         if length pathPattern > 0 then
           (case assertMap (hd pathPattern) of
              Inl e \<Rightarrow> Inl e
            | Inr b \<Rightarrow> Inr (elbCondition\<lparr>PathPatternConfig :=
                Some (PathPatternConditionConfig (interfaceStringSlice (block_values b)))\<rparr>))
         else if length conditionValues > 0 then
           Inr (elbCondition\<lparr>PathPatternConfig :=
                Some (PathPatternConditionConfig (interfaceStringSlice conditionValues))\<rparr>)
         else Inl (New ''path_pattern must be set when condition field is path-pattern''))
      else if field conditionMap = ''query-string'' then
        (let queryString = query_string conditionMap in
         if length queryString = 0 then
           Inl (New ''query_string must be set when condition field is query-string'')
         else
           (case assertMap (hd queryString) of
              Inl e \<Rightarrow> Inl e
            | Inr b \<Rightarrow> Inr (elbCondition\<lparr>QueryStringConfig :=
                Some (QueryStringConditionConfig
                        (map queryStringKeyValuePair (query_string_values b)))\<rparr>)))
      else if field conditionMap = ''source-ip'' then
        (let sourceIp = source_ip conditionMap in
         if length sourceIp = 0 then
           Inl (New ''source_ip must be set when condition field is source-ip'')
         else
           (case assertMap (hd sourceIp) of
              Inl e \<Rightarrow> Inl e
            | Inr b \<Rightarrow> Inr (elbCondition\<lparr>SourceIpConfig :=
                Some (SourceIpConditionConfig (interfaceStringSlice (block_values b)))\<rparr>)))
      else Inr elbCondition)"

text \<open>
  \<^verbatim>\<open>lbListenerRuleConditions\<close>: the loop over the conditions in order. The first condition
  that fails ends the function; otherwise the result has one element per condition.
\<close>

fun lbListenerRuleConditions :: "condition list \<Rightarrow> error + RuleCondition list" where
  "lbListenerRuleConditions [] = Inr []"
| "lbListenerRuleConditions (condition # conditions) =
     (case lbListenerRuleCondition condition of
        Inl e \<Rightarrow> Inl e
      | Inr elbCondition \<Rightarrow>
          (case lbListenerRuleConditions conditions of
             Inl e \<Rightarrow> Inl e
           | Inr elbConditions \<Rightarrow> Inr (elbCondition # elbConditions)))"

section \<open>Flattening rule conditions into condition blocks\<close>

text \<open>
  The body of the last loop of \<^verbatim>\<open>resourceAwsLbListenerRuleRead\<close> (lines 895 to 959) for one
  rule condition. The source sets a block's key only when the config is not \<^verbatim>\<open>nil\<close>; a
  key it does not set reads back from the schema as the empty list.
\<close>

definition flattenRuleCondition :: "RuleCondition \<Rightarrow> condition" where
  "flattenRuleCondition c =
     \<lparr>field = StringValue (Field c),
      host_header =
        (case HostHeaderConfig c of None \<Rightarrow> []
         | Some cfg \<Rightarrow> [Some (ValuesBlock (StringValueSlice (HostHeader_Values cfg)))]),
      http_header =
        (case HttpHeaderConfig c of None \<Rightarrow> []
         | Some cfg \<Rightarrow> [Some (HttpHeaderBlock (StringValue (HttpHeaderName cfg))
                                    (StringValueSlice (HttpHeader_Values cfg)))]),
      http_request_method =
        (case HttpRequestMethodConfig c of None \<Rightarrow> []
         | Some cfg \<Rightarrow> [Some (ValuesBlock (StringValueSlice (HttpRequestMethod_Values cfg)))]),
      path_pattern =
        (case PathPatternConfig c of None \<Rightarrow> []
         | Some cfg \<Rightarrow> [Some (ValuesBlock (StringValueSlice (PathPattern_Values cfg)))]),
      query_string =
        (case QueryStringConfig c of None \<Rightarrow> []
         | Some cfg \<Rightarrow> [Some (QueryStringBlock
             (map (\<lambda>v. QueryStringPair (StringValue (Key v)) (StringValue (Value v)))
                  (QueryString_Values cfg)))]),
      source_ip =
        (case SourceIpConfig c of None \<Rightarrow> []
         | Some cfg \<Rightarrow> [Some (ValuesBlock (StringValueSlice (SourceIp_Values cfg)))]),
      values' = StringValueSlice (Values c)\<rparr>"

definition flattenRuleConditions :: "RuleCondition list \<Rightarrow> condition list" where
  "flattenRuleConditions cs = map flattenRuleCondition cs"

section \<open>Vocabulary for the statements about the expansion\<close>

text \<open>
  \<open>blockMissing\<close>: the condition names one of the six fields and the block that
  carries its values is not set (for \<^verbatim>\<open>host-header\<close> and \<^verbatim>\<open>path-pattern\<close>: neither the block
  nor the deprecated top-level list). \<open>selectedBlockNil\<close>: the block list of the
  condition's field has a first element and that element is \<^verbatim>\<open>nil\<close>.
\<close>

definition blockMissing :: "condition \<Rightarrow> bool" where
  "blockMissing c \<longleftrightarrow>
     (field c = ''http-header'' \<and> http_header c = []) \<or>
     (field c = ''http-request-method'' \<and> http_request_method c = []) \<or>
     (field c = ''query-string'' \<and> query_string c = []) \<or>
     (field c = ''source-ip'' \<and> source_ip c = []) \<or>
     (field c = ''host-header'' \<and> host_header c = [] \<and> values' c = []) \<or>
     (field c = ''path-pattern'' \<and> path_pattern c = [] \<and> values' c = [])"

definition selectedBlockNil :: "condition \<Rightarrow> bool" where
  "selectedBlockNil c \<longleftrightarrow>
     (field c = ''host-header'' \<and> host_header c \<noteq> [] \<and> hd (host_header c) = None) \<or>
     (field c = ''http-header'' \<and> http_header c \<noteq> [] \<and> hd (http_header c) = None) \<or>
     (field c = ''http-request-method'' \<and> http_request_method c \<noteq> [] \<and> hd (http_request_method c) = None) \<or>
     (field c = ''path-pattern'' \<and> path_pattern c \<noteq> [] \<and> hd (path_pattern c) = None) \<or>
     (field c = ''query-string'' \<and> query_string c \<noteq> [] \<and> hd (query_string c) = None) \<or>
     (field c = ''source-ip'' \<and> source_ip c \<noteq> [] \<and> hd (source_ip c) = None)"

text \<open>A condition block with the given field and nothing else set.\<close>

definition emptyCondition :: "string \<Rightarrow> condition" where
  "emptyCondition f =
     \<lparr>field = f, host_header = [], http_header = [], http_request_method = [],
      path_pattern = [], query_string = [], source_ip = [], values' = []\<rparr>"

section \<open>The listener ARN of a rule ARN\<close>

text \<open>
  \<^verbatim>\<open>regexp.MustCompile(`^(arn:.+:listener)-rule(/.+)/[^/]+$`)\<close> and
  \<^verbatim>\<open>FindStringSubmatch\<close> belong to Go's standard library. Its matching rule: the match
  found is the one a backtracking search finds first, with greedy repetition trying the
  longest repetition first. The fragment of the syntax the pattern uses is embedded as a
  datatype, and the search as the list of its outcomes in the order a backtracking engine
  reaches them. An outcome is the text still to be matched together with the groups
  captured so far (the pattern's groups are not nested, so they close in the order they
  open). \<^verbatim>\<open>.\<close> matches every character but the newline, \<^verbatim>\<open>[^/]\<close> every character but
  the ones listed. The strings are byte strings; every literal of the pattern is ASCII, so
  a match never splits a multi-byte character.
\<close>

datatype charclass = AnyCharNotNL | NotChars "char list"

datatype regexp =
    Lit string
  | Plus charclass
  | Group regexp
  | Seq regexp regexp

fun classMatch :: "charclass \<Rightarrow> char \<Rightarrow> bool" where
  "classMatch AnyCharNotNL ch = (ch \<noteq> CHR 0x0A)"
| "classMatch (NotChars cs) ch = (ch \<notin> set cs)"

fun backtrack :: "regexp \<Rightarrow> string \<times> string list \<Rightarrow> (string \<times> string list) list" where
  "backtrack (Lit l) (s, groups) =
     (if take (length l) s = l then [(drop (length l) s, groups)] else [])"
| "backtrack (Plus c) (s, groups) =
     map (\<lambda>k. (drop k s, groups)) (rev [1 ..< Suc (length (takeWhile (classMatch c) s))])"
| "backtrack (Group r) (s, groups) =
     map (\<lambda>(s', groups'). (s', groups' @ [take (length s - length s') s]))
         (backtrack r (s, groups))"
| "backtrack (Seq a b) st = concat (map (backtrack b) (backtrack a st))"

text \<open>
  \<^verbatim>\<open>FindStringSubmatch\<close> for a pattern anchored at both ends: the first outcome that
  leaves no text, as the whole match followed by the groups; the empty list stands for the
  \<^verbatim>\<open>nil\<close> slice of no match.
\<close>

definition FindStringSubmatch :: "regexp \<Rightarrow> string \<Rightarrow> string list" where
  "FindStringSubmatch re s =
     (case filter (\<lambda>(rest, groups). rest = []) (backtrack re (s, [])) of
        [] \<Rightarrow> []
      | (rest, groups) # _ \<Rightarrow> s # groups)"

definition lbListenerARNFromRuleARNRegexp :: regexp where
  "lbListenerARNFromRuleARNRegexp =
     Seq (Group (Seq (Lit ''arn:'') (Seq (Plus AnyCharNotNL) (Lit '':listener''))))
    (Seq (Lit ''-rule'')
    (Seq (Group (Seq (Lit ''/'') (Plus AnyCharNotNL)))
    (Seq (Lit ''/'') (Plus (NotChars ''/'')))))"

definition lbListenerARNFromRuleARN :: "string \<Rightarrow> string" where
  "lbListenerARNFromRuleARN ruleArn =
     (let arnComponents = FindStringSubmatch lbListenerARNFromRuleARNRegexp ruleArn in
      if length arnComponents > 1 then arnComponents ! 1 @ arnComponents ! 2
      else [])"

text \<open>
  The pattern, read as a description of a string: \<open>a\<close>, \<open>b\<close> and \<open>c\<close> are what the two
  \<^verbatim>\<open>.+\<close> and the \<^verbatim>\<open>[^/]+\<close> stand for.
\<close>

definition ruleArnParts :: "string \<Rightarrow> string \<Rightarrow> string \<Rightarrow> string \<Rightarrow> bool" where
  "ruleArnParts s a b c \<longleftrightarrow>
     s = ''arn:'' @ a @ '':listener'' @ ''-rule'' @ ''/'' @ b @ ''/'' @ c
     \<and> a \<noteq> [] \<and> CHR 0x0A \<notin> set a
     \<and> b \<noteq> [] \<and> CHR 0x0A \<notin> set b
     \<and> c \<noteq> [] \<and> CHR ''/'' \<notin> set c"

text \<open>
  What it means for a text \<open>u\<close> to match a pattern, taking the captured groups from
  \<open>groups\<close> to \<open>groups'\<close>: the declarative reading of the pattern, against which the
  search is checked.
\<close>

fun matches :: "regexp \<Rightarrow> string \<Rightarrow> string list \<Rightarrow> string list \<Rightarrow> bool" where
  "matches (Lit l) u groups groups' \<longleftrightarrow> u = l \<and> groups' = groups"
| "matches (Plus c) u groups groups' \<longleftrightarrow>
     u \<noteq> [] \<and> list_all (classMatch c) u \<and> groups' = groups"
| "matches (Group r) u groups groups' \<longleftrightarrow>
     (\<exists>gm. matches r u groups gm \<and> groups' = gm @ [u])"
| "matches (Seq a b) u groups groups' \<longleftrightarrow>
     (\<exists>u1 u2 gm. u = u1 @ u2 \<and> matches a u1 groups gm \<and> matches b u2 gm groups')"

section \<open>The ELBv2 API and the resource data\<close>

text \<open>
  The part of the SDK's \<^verbatim>\<open>elbv2\<close> types the resource functions touch. A rule's \<^verbatim>\<open>Priority\<close>
  is a \<^verbatim>\<open>*string\<close> (\<^verbatim>\<open>"default"\<close> or a decimal numeral), the \<^verbatim>\<open>Priority\<close> of a
  \<^verbatim>\<open>CreateRuleInput\<close> a \<^verbatim>\<open>*int64\<close>. Field names that two structs share carry the struct's
  name here. Of an \<^verbatim>\<open>elbv2.Action\<close> the type, the order and the target group are kept; the
  config structs of the other action types, and the loops of the resource functions that
  build and flatten actions, are not part of the model.
\<close>

datatype Action =
  Action (Action_Type: "string option") (Action_Order: "int option")
         (TargetGroupArn: "string option")

datatype Rule =
  Rule (RuleArn: "string option") (Rule_Priority: "string option")
       (Rule_Conditions: "RuleCondition list")

record DescribeRulesInput =
  DescribeRules_ListenerArn :: "string option"
  Marker :: "string option"
  RuleArns :: "string option list"

record DescribeRulesOutput =
  NextMarker :: "string option"
  DescribeRules_Rules :: "Rule list"

record CreateRuleInput =
  ListenerArn :: "string option"
  Actions :: "Action list"
  Conditions :: "RuleCondition list"
  Priority :: "int option"

record CreateRuleOutput =
  CreateRule_Rules :: "Rule list"

record DeleteRuleInput =
  DeleteRule_RuleArn :: "string option"

text \<open>
  The connection \<^verbatim>\<open>elbconn\<close>. AWS is the environment of the provider: each call takes the
  state \<open>'w\<close> of the world and returns its answer, an error or an output, with the state
  after the call.
\<close>

record 'w ELBV2 =
  DescribeRules :: "DescribeRulesInput \<Rightarrow> 'w \<Rightarrow> (error + DescribeRulesOutput) \<times> 'w"
  CreateRule :: "CreateRuleInput \<Rightarrow> 'w \<Rightarrow> (error + CreateRuleOutput) \<times> 'w"
  DeleteRule :: "DeleteRuleInput \<Rightarrow> 'w \<Rightarrow> error option \<times> 'w"

definition ErrCodePriorityInUseException :: string where
  "ErrCodePriorityInUseException = ''PriorityInUse''"

definition ErrCodeRuleNotFoundException :: string where
  "ErrCodeRuleNotFoundException = ''RuleNotFound''"

text \<open>\<^verbatim>\<open>strings.Contains\<close>.\<close>

definition strings_Contains :: "string \<Rightarrow> string \<Rightarrow> bool" where
  "strings_Contains s substr =
     list_ex (\<lambda>i. take (length substr) (drop i s) = substr) [0 ..< Suc (length s)]"

text \<open>
  Modelled from the spec: \<^verbatim>\<open>isAWSErr\<close> is a helper of this repository that is not among
  the source files. The spec names the recovery model as retrying "on a named AWS error
  code": the helper holds when the error is an AWS error with the given code whose message
  contains the given text (every call in this file passes the empty text).
\<close>

definition isAWSErr :: "error \<Rightarrow> string \<Rightarrow> string \<Rightarrow> bool" where
  "isAWSErr err code message =
     (case err of
        AWSError c m \<Rightarrow> c = code \<and> strings_Contains m message
      | _ \<Rightarrow> False)"

text \<open>
  The \<^verbatim>\<open>*schema.ResourceData\<close> of a listener rule, with the attributes the modelled
  functions read and write (\<open>attr_priority\<close> is the attribute \<^verbatim>\<open>"priority"\<close>, \<open>None\<close> when
  it is not set; \<open>attr_condition\<close> holds the elements of the \<^verbatim>\<open>condition\<close> set as a list).
  \<^verbatim>\<open>d.GetOk("priority")\<close> reports a value only when it is set and not the zero value.
\<close>

record ResourceData =
  Id :: string
  IsNewResource :: bool
  attr_arn :: string
  attr_listener_arn :: string
  attr_priority :: "int option"
  attr_condition :: "condition list"

definition GetOk_priority :: "ResourceData \<Rightarrow> int option" where
  "GetOk_priority d =
     (case attr_priority d of
        None \<Rightarrow> None
      | Some v \<Rightarrow> if v = 0 then None else Some v)"

section \<open>Retrying\<close>

text \<open>
  \<^verbatim>\<open>resource.Retry(timeout, f)\<close> of Terraform's helper library calls \<open>f\<close> again and again
  while it returns a retryable error and the timeout has not passed; it returns \<^verbatim>\<open>nil\<close>
  when \<open>f\<close> does, and otherwise the error of the last call. Time is not modelled: the
  timeout is the number of further calls it leaves room for after the first one. The
  closure \<open>f\<close> updates variables of the enclosing function and calls AWS: it is a function
  on a state, and it need not return (\<open>None\<close>).
\<close>

datatype RetryError = RetryableError error | NonRetryableError error

fun Retry :: "nat \<Rightarrow> ('s \<Rightarrow> (RetryError option \<times> 's) option) \<Rightarrow> 's \<Rightarrow> (error option \<times> 's) option" where
  "Retry timeout f s =
     (case f s of
        None \<Rightarrow> None
      | Some (None, s') \<Rightarrow> Some (None, s')
      | Some (Some (NonRetryableError err), s') \<Rightarrow> Some (Some err, s')
      | Some (Some (RetryableError err), s') \<Rightarrow>
          (case timeout of
             0 \<Rightarrow> Some (Some err, s')
           | Suc t \<Rightarrow> Retry t f s'))"

section \<open>Deleting a rule\<close>

definition resourceAwsLbListenerRuleDelete :: "'w ELBV2 \<Rightarrow> ResourceData \<Rightarrow> 'w \<Rightarrow> error option \<times> 'w" where
  "resourceAwsLbListenerRuleDelete elbconn d w =
     (case DeleteRule elbconn \<lparr>DeleteRule_RuleArn = aws_String (Id d)\<rparr> w of
        (err, w') \<Rightarrow>
          if err \<noteq> None \<and> \<not> isAWSErr (the err) ErrCodeRuleNotFoundException []
          then (Some (Errorf ''Error deleting LB Listener Rule: %s'' [] err), w')
          else (None, w'))"

section \<open>Parsing a priority\<close>

text \<open>
  \<^verbatim>\<open>strconv.Atoi\<close> of Go's standard library, for the 64-bit \<^verbatim>\<open>int\<close>: an optional sign and
  decimal digits. \<open>ParseUint_loop\<close> is the digit loop of \<^verbatim>\<open>strconv.ParseUint\<close> in base 10
  with its two overflow tests, \<open>Atoi\<close> the sign handling and the range test of
  \<^verbatim>\<open>strconv.ParseInt\<close>. Like the Go function it returns a value together with the error:
  0 with a syntax error, the nearest bound with a range error. The \<^verbatim>\<open>uint64\<close> of the digit
  loop is an integer that the loop keeps below \<open>2 ^ 64\<close>.
\<close>

definition isDigit :: "char \<Rightarrow> bool" where
  "isDigit ch \<longleftrightarrow> 48 \<le> (of_char ch :: int) \<and> (of_char ch :: int) \<le> 57"

definition digitVal :: "char \<Rightarrow> int" where
  "digitVal ch = of_char ch - 48"

fun ParseUint_loop :: "string \<Rightarrow> int \<Rightarrow> int \<times> numerr option" where
  "ParseUint_loop [] n = (n, None)"
| "ParseUint_loop (c # cs) n =
     (if \<not> isDigit c then (0, Some ErrSyntax)
      else if n \<ge> (2 ^ 64 - 1) div 10 + 1 then (2 ^ 64 - 1, Some ErrRange)
      else (let n1 = n * 10 + digitVal c in
            if n1 > 2 ^ 64 - 1 then (2 ^ 64 - 1, Some ErrRange)
            else ParseUint_loop cs n1))"

definition Atoi :: "string \<Rightarrow> int \<times> error option" where
  "Atoi s =
     (if s = [] then (0, Some (NumError s ErrSyntax))
      else
        (let neg = (hd s = CHR ''-'');
             ds = (if hd s = CHR ''+'' \<or> hd s = CHR ''-'' then tl s else s) in
         if ds = [] then (0, Some (NumError s ErrSyntax))
         else
           (case ParseUint_loop ds 0 of
              (un, Some ErrSyntax) \<Rightarrow> (0, Some (NumError s ErrSyntax))
            | (un, _) \<Rightarrow>
                if \<not> neg \<and> un \<ge> 2 ^ 63 then (2 ^ 63 - 1, Some (NumError s ErrRange))
                else if neg \<and> un > 2 ^ 63 then (- (2 ^ 63), Some (NumError s ErrRange))
                else (if neg then - un else un, None))))"

text \<open>\<^verbatim>\<open>int64\<close> arithmetic wraps around: the value of an integer as an \<^verbatim>\<open>int64\<close>.\<close>

definition int64 :: "int \<Rightarrow> int" where
  "int64 n = (n + 2 ^ 63) mod 2 ^ 64 - 2 ^ 63"

section \<open>Allocating a priority\<close>

text \<open>
  The loop of \<^verbatim>\<open>highestListenerRulePriority\<close> (lines 1189 to 1208): one \<^verbatim>\<open>DescribeRules\<close>
  call per page, following \<^verbatim>\<open>NextMarker\<close>. It ends at the first error or at the first page
  without a marker; against an API that always returns a marker it does not end, which is
  the value \<open>None\<close>. The error of \<^verbatim>\<open>strconv.Atoi\<close> is dropped (\<^verbatim>\<open>p, _ :=\<close>), its value kept.
\<close>

partial_function (option) highestListenerRulePriority_loop ::
  "'w ELBV2 \<Rightarrow> string \<Rightarrow> string option \<Rightarrow> int list \<Rightarrow> 'w \<Rightarrow> ((error + int list) \<times> 'w) option" where
  "highestListenerRulePriority_loop conn listenerArn nextMarker priorities w =
     (case DescribeRules conn
             \<lparr>DescribeRules_ListenerArn = aws_String listenerArn, Marker = nextMarker,
              RuleArns = []\<rparr> w of
        (Inl aerr, w') \<Rightarrow> Some (Inl aerr, w')
      | (Inr out, w') \<Rightarrow>
          (let priorities' = priorities @
                 map (\<lambda>rule. fst (Atoi (StringValue (Rule_Priority rule))))
                     (filter (\<lambda>rule. StringValue (Rule_Priority rule) \<noteq> ''default'')
                             (DescribeRules_Rules out)) in
           if NextMarker out = None then Some (Inr priorities', w')
           else highestListenerRulePriority_loop conn listenerArn (NextMarker out) priorities' w'))"

definition highestListenerRulePriority ::
  "'w ELBV2 \<Rightarrow> string \<Rightarrow> 'w \<Rightarrow> ((error + int) \<times> 'w) option" where
  "highestListenerRulePriority conn listenerArn w =
     (case highestListenerRulePriority_loop conn listenerArn None [] w of
        None \<Rightarrow> None
      | Some (Inl err, w') \<Rightarrow> Some (Inl err, w')
      | Some (Inr priorities, w') \<Rightarrow>
          Some (Inr (if length priorities = 0 then 0 else last (sort priorities)), w'))"

section \<open>Creating a rule\<close>

text \<open>
  The closure passed to \<^verbatim>\<open>resource.Retry\<close> in \<^verbatim>\<open>resourceAwsLbListenerRuleCreate\<close> (lines 728
  to 743). It assigns \<^verbatim>\<open>params.Priority\<close> and \<^verbatim>\<open>resp\<close> of the enclosing function: its state
  is \<open>(params, resp, w)\<close>. \<^verbatim>\<open>priority + 1\<close> is an \<^verbatim>\<open>int64\<close> addition.
\<close>

definition createRuleAttempt ::
  "'w ELBV2 \<Rightarrow> string \<Rightarrow> CreateRuleInput \<times> CreateRuleOutput option \<times> 'w
     \<Rightarrow> (RetryError option \<times> CreateRuleInput \<times> CreateRuleOutput option \<times> 'w) option" where
  "createRuleAttempt elbconn listenerArn st =
     (case st of (params, resp, w) \<Rightarrow>
      (case highestListenerRulePriority elbconn listenerArn w of
         None \<Rightarrow> None
       | Some (Inl err, w1) \<Rightarrow> Some (Some (NonRetryableError err), (params, resp, w1))
       | Some (Inr highest, w1) \<Rightarrow>
           (let params' = params\<lparr>Priority := Some (int64 (highest + 1))\<rparr> in
            case CreateRule elbconn params' w1 of
              (Inl err, w2) \<Rightarrow>
                if isAWSErr err ErrCodePriorityInUseException []
                then Some (Some (RetryableError err), (params', None, w2))
                else Some (Some (NonRetryableError err), (params', None, w2))
            | (Inr out, w2) \<Rightarrow> Some (None, (params', Some out, w2)))))"

text \<open>
  Lines 719 to 747 of \<^verbatim>\<open>resourceAwsLbListenerRuleCreate\<close>: the call of \<^verbatim>\<open>CreateRule\<close> with the
  configured priority, or with an allocated one inside \<^verbatim>\<open>resource.Retry\<close>. The result is
  the error the function returns at this point, or \<^verbatim>\<open>resp\<close>.
\<close>

definition createRuleWithPriority ::
  "nat \<Rightarrow> 'w ELBV2 \<Rightarrow> ResourceData \<Rightarrow> string \<Rightarrow> CreateRuleInput \<Rightarrow> 'w
     \<Rightarrow> ((error + CreateRuleOutput) \<times> 'w) option" where
  "createRuleWithPriority timeout elbconn d listenerArn params w =
     (case GetOk_priority d of
        Some v \<Rightarrow>
          (case CreateRule elbconn (params\<lparr>Priority := Some (int64 v)\<rparr>) w of
             (Inl err, w') \<Rightarrow>
               Some (Inl (Errorf ''Error creating LB Listener Rule: %v'' [] (Some err)), w')
           | (Inr out, w') \<Rightarrow> Some (Inr out, w'))
      | None \<Rightarrow>
          (case Retry timeout (createRuleAttempt elbconn listenerArn) (params, None, w) of
             None \<Rightarrow> None
           | Some (Some err, (params', resp, w')) \<Rightarrow>
               Some (Inl (Errorf ''Error creating LB Listener Rule: %v'' [] (Some err)), w')
           | Some (None, (params', None, w')) \<Rightarrow>
               Some (Inl (Panic ''invalid memory address or nil pointer dereference''), w')
           | Some (None, (params', Some out, w')) \<Rightarrow> Some (Inr out, w')))"

section \<open>Reading a rule\<close>

text \<open>
  \<^verbatim>\<open>resourceAwsLbListenerRuleRead\<close> from \<^verbatim>\<open>rule := resp.Rules[0]\<close> on (lines 792 to 962),
  without the actions: it sets \<^verbatim>\<open>arn\<close> and \<^verbatim>\<open>listener_arn\<close>, decodes the priority (returning
  at once when that fails), and sets the conditions. The result is the returned error and
  the resource data as the function leaves it.
\<close>

definition readRule :: "ResourceData \<Rightarrow> Rule \<Rightarrow> error option \<times> ResourceData" where
  "readRule d rule =
     (let d1 = d\<lparr>attr_arn := StringValue (RuleArn rule),
                 attr_listener_arn := lbListenerARNFromRuleARN (StringValue (RuleArn rule))\<rparr>;
          setConditions = (\<lambda>d'. d'\<lparr>attr_condition := flattenRuleConditions (Rule_Conditions rule)\<rparr>) in
      if StringValue (Rule_Priority rule) = ''default''
      then (None, setConditions (d1\<lparr>attr_priority := Some 99999\<rparr>))
      else
        (case Atoi (StringValue (Rule_Priority rule)) of
           (p, Some err) \<Rightarrow>
             (Some (Errorf ''Cannot convert rule priority %q to int: %s''
                      [StringValue (Rule_Priority rule)] (Some err)), d1)
         | (p, None) \<Rightarrow> (None, setConditions (d1\<lparr>attr_priority := Some p\<rparr>))))"

text \<open>
  The closure of the \<^verbatim>\<open>resource.Retry\<close> in \<^verbatim>\<open>resourceAwsLbListenerRuleRead\<close> (lines 766 to
  777), with state \<open>(resp, w)\<close>, and the function itself.
\<close>

definition describeRuleAttempt ::
  "'w ELBV2 \<Rightarrow> ResourceData \<Rightarrow> DescribeRulesOutput option \<times> 'w
     \<Rightarrow> (RetryError option \<times> DescribeRulesOutput option \<times> 'w) option" where
  "describeRuleAttempt elbconn d st =
     (case st of (resp, w) \<Rightarrow>
      (case DescribeRules elbconn
              \<lparr>DescribeRules_ListenerArn = None, Marker = None, RuleArns = [aws_String (Id d)]\<rparr> w of
         (Inl err, w') \<Rightarrow>
           if IsNewResource d \<and> isAWSErr err ErrCodeRuleNotFoundException []
           then Some (Some (RetryableError err), (None, w'))
           else Some (Some (NonRetryableError err), (None, w'))
       | (Inr out, w') \<Rightarrow> Some (None, (Some out, w'))))"

definition resourceAwsLbListenerRuleRead ::
  "nat \<Rightarrow> 'w ELBV2 \<Rightarrow> ResourceData \<Rightarrow> 'w \<Rightarrow> ((error option \<times> ResourceData) \<times> 'w) option" where
  "resourceAwsLbListenerRuleRead timeout elbconn d w =
     (case Retry timeout (describeRuleAttempt elbconn d) (None, w) of
        None \<Rightarrow> None
      | Some (Some err, (resp, w')) \<Rightarrow>
          if isAWSErr err ErrCodeRuleNotFoundException []
          then Some ((None, d\<lparr>Id := []\<rparr>), w')
          else Some ((Some (Errorf ''Error retrieving Rules for listener %q: %s'' [Id d] (Some err)), d), w')
      | Some (None, (None, w')) \<Rightarrow>
          Some ((Some (Panic ''invalid memory address or nil pointer dereference''), d), w')
      | Some (None, (Some resp, w')) \<Rightarrow>
          if length (DescribeRules_Rules resp) \<noteq> 1
          then Some ((Some (Errorf ''Error retrieving Rule %q'' [Id d] None), d), w')
          else Some (readRule d (hd (DescribeRules_Rules resp)), w'))"

text \<open>
  \<^verbatim>\<open>resourceAwsLbListenerRuleCreate\<close> from line 713 on, given the actions the first loop has
  built: the conditions are expanded, the rule is created, its ARN becomes the id, and the
  rule is read back. \<open>timeout\<close> and \<open>readTimeout\<close> are the two retry windows.
\<close>

definition resourceAwsLbListenerRuleCreate ::
  "nat \<Rightarrow> nat \<Rightarrow> 'w ELBV2 \<Rightarrow> ResourceData \<Rightarrow> Action list \<Rightarrow> 'w
     \<Rightarrow> ((error option \<times> ResourceData) \<times> 'w) option" where
  "resourceAwsLbListenerRuleCreate timeout readTimeout elbconn d actions w =
     (let listenerArn = attr_listener_arn d;
          params = \<lparr>ListenerArn = aws_String listenerArn, Actions = actions,
                    Conditions = [], Priority = None\<rparr> in
      case lbListenerRuleConditions (attr_condition d) of
        Inl err \<Rightarrow> Some ((Some err, d), w)
      | Inr elbConditions \<Rightarrow>
          (case createRuleWithPriority timeout elbconn d listenerArn
                  (params\<lparr>Conditions := elbConditions\<rparr>) w of
             None \<Rightarrow> None
           | Some (Inl err, w') \<Rightarrow> Some ((Some err, d), w')
           | Some (Inr resp, w') \<Rightarrow>
               if length (CreateRule_Rules resp) = 0
               then Some ((Some (New ''Error creating LB Listener Rule: no rules returned in response''), d), w')
               else resourceAwsLbListenerRuleRead readTimeout elbconn
                      (d\<lparr>Id := StringValue (RuleArn (hd (CreateRule_Rules resp)))\<rparr>) w'))"

section \<open>Vocabulary for the statements about priorities\<close>

text \<open>
  \<open>isDecimalInt s n\<close>: the text \<open>s\<close> is an optional sign followed by one or more decimal
  digits, it denotes \<open>n\<close>, and \<open>n\<close> fits the 64-bit \<^verbatim>\<open>int\<close>.
\<close>

definition decimalValue :: "string \<Rightarrow> int" where
  "decimalValue ds = foldl (\<lambda>n c. n * 10 + digitVal c) 0 ds"

definition isDecimalInt :: "string \<Rightarrow> int \<Rightarrow> bool" where
  "isDecimalInt s n \<longleftrightarrow>
     (\<exists>ds. ds \<noteq> [] \<and> list_all isDigit ds
        \<and> (((s = ds \<or> s = ''+'' @ ds) \<and> n = decimalValue ds) \<or> (s = ''-'' @ ds \<and> n = - decimalValue ds)))
     \<and> - (2 ^ 63) \<le> n \<and> n \<le> 2 ^ 63 - 1"

text \<open>
  \<open>pagesFrom conn arn marker w outs w'\<close>: asked for the rules of the listener page by page,
  starting with \<open>marker\<close> in the state \<open>w\<close>, the API answers with the pages \<open>outs\<close>, each
  but the last with a \<^verbatim>\<open>NextMarker\<close>, and is left in the state \<open>w'\<close>.
\<close>

inductive pagesFrom ::
  "'w ELBV2 \<Rightarrow> string \<Rightarrow> string option \<Rightarrow> 'w \<Rightarrow> DescribeRulesOutput list \<Rightarrow> 'w \<Rightarrow> bool" where
  last_page:
    "DescribeRules conn \<lparr>DescribeRules_ListenerArn = aws_String listenerArn, Marker = marker,
                         RuleArns = []\<rparr> w = (Inr out, w')
     \<Longrightarrow> NextMarker out = None
     \<Longrightarrow> pagesFrom conn listenerArn marker w [out] w'"
| next_page:
    "DescribeRules conn \<lparr>DescribeRules_ListenerArn = aws_String listenerArn, Marker = marker,
                         RuleArns = []\<rparr> w = (Inr out, w1)
     \<Longrightarrow> NextMarker out \<noteq> None
     \<Longrightarrow> pagesFrom conn listenerArn (NextMarker out) w1 outs w'
     \<Longrightarrow> pagesFrom conn listenerArn marker w (out # outs) w'"

text \<open>
  The priorities of the rules that are not the default rule, as
  \<^verbatim>\<open>highestListenerRulePriority\<close> reads them: a priority that is no numeral counts as 0,
  a numeral beyond the range of \<^verbatim>\<open>int\<close> as the nearest bound. \<open>highestOf\<close> is the highest
  of them, 0 when there is none.
\<close>

definition rulePriorities :: "Rule list \<Rightarrow> int list" where
  "rulePriorities rules =
     map (\<lambda>rule. fst (Atoi (StringValue (Rule_Priority rule))))
         (filter (\<lambda>rule. StringValue (Rule_Priority rule) \<noteq> ''default'') rules)"

definition highestOf :: "int list \<Rightarrow> int" where
  "highestOf ps = (if ps = [] then 0 else Max (set ps))"

section \<open>Two environments for evaluating the functions\<close>

text \<open>
  \<open>apiPages pages\<close>: a listener whose rules have the priorities \<open>pages\<close>, reported page by
  page; the marker of page \<open>i\<close> is a text of length \<open>i\<close>. The state of the world is the
  list of the inputs \<^verbatim>\<open>CreateRule\<close> has been called with; each call succeeds.
  \<open>apiPriorityInUse k\<close>: a listener without rules on which the first \<open>k\<close> calls of
  \<^verbatim>\<open>CreateRule\<close> fail with \<^verbatim>\<open>PriorityInUse\<close> and the next one succeeds; the state of the
  world is the number of \<^verbatim>\<open>CreateRule\<close> calls made.
\<close>

definition apiPages :: "string list list \<Rightarrow> (CreateRuleInput list) ELBV2" where
  "apiPages pages =
     \<lparr>DescribeRules = (\<lambda>input w.
        (let i = (case Marker input of None \<Rightarrow> 0 | Some m \<Rightarrow> length m) in
         (Inr \<lparr>NextMarker =
                 (if Suc i < length pages then Some (replicate (Suc i) CHR ''m'') else None),
               DescribeRules_Rules =
                 map (\<lambda>p. Rule (Some ''rule/1'') (Some p) [])
                     (if i < length pages then pages ! i else [])\<rparr>, w))),
      CreateRule = (\<lambda>input w.
        (Inr \<lparr>CreateRule_Rules = [Rule (Some ''rule/2'') (Some ''new'') []]\<rparr>, w @ [input])),
      DeleteRule = (\<lambda>input w. (None, w))\<rparr>"

definition apiPriorityInUse :: "nat \<Rightarrow> nat ELBV2" where
  "apiPriorityInUse k =
     \<lparr>DescribeRules = (\<lambda>input n. (Inr \<lparr>NextMarker = None, DescribeRules_Rules = []\<rparr>, n)),
      CreateRule = (\<lambda>input n.
        if n < k then (Inl (AWSError ''PriorityInUse'' ''Priority is in use''), Suc n)
        else (Inr \<lparr>CreateRule_Rules = [Rule (Some ''rule/1'') (Some ''1'') []]\<rparr>, Suc n)),
      DeleteRule = (\<lambda>input n. (None, n))\<rparr>"

definition exampleData :: ResourceData where
  "exampleData =
     \<lparr>Id = [], IsNewResource = True, attr_arn = [], attr_listener_arn = ''listener/1'',
      attr_priority = None, attr_condition = []\<rparr>"

definition exampleParams :: CreateRuleInput where
  "exampleParams =
     \<lparr>ListenerArn = Some ''listener/1'', Actions = [], Conditions = [], Priority = None\<rparr>"

section \<open>Properties\<close>

text \<open>
  C8. For every integer \<open>v\<close> the validator reports no error exactly when
  \<open>1 \<le> v \<le> 50000\<close> or \<open>v = 99999\<close>; every other integer (zero, the negatives,
  50001 to 99998, and everything above 99999) yields exactly one error. It never
  produces a warning.
\<close>

theorem validateAwsLbListenerRulePriority_accepts:
  "(snd (validateAwsLbListenerRulePriority v k) = [] \<longleftrightarrow> (1 \<le> v \<and> v \<le> 50000) \<or> v = 99999)
   \<and> (if (1 \<le> v \<and> v \<le> 50000) \<or> v = 99999
      then length (snd (validateAwsLbListenerRulePriority v k)) = 0
      else length (snd (validateAwsLbListenerRulePriority v k)) = 1)
   \<and> fst (validateAwsLbListenerRulePriority v k) = []"
  by (auto simp: validateAwsLbListenerRulePriority_def)


subsection \<open>The expansion, field by field\<close>

lemma expand_host_header:
  "field c = ''host-header'' \<Longrightarrow> lbListenerRuleCondition c =
     (if host_header c \<noteq> [] then
        (case hd (host_header c) of
           None \<Rightarrow> Inl (Panic ''interface conversion: interface {} is nil, not map[string]interface {}'')
         | Some b \<Rightarrow> Inr ((emptyRuleCondition ''host-header'')\<lparr>HostHeaderConfig :=
                Some (HostHeaderConditionConfig (interfaceStringSlice (block_values b)))\<rparr>))
      else if values' c \<noteq> [] then
        Inr ((emptyRuleCondition ''host-header'')\<lparr>HostHeaderConfig :=
                Some (HostHeaderConditionConfig (interfaceStringSlice (values' c)))\<rparr>)
      else Inl (New ''host_header must be set when condition field is host-header''))"
  by (simp add: lbListenerRuleCondition_def assertMap_def Let_def split: option.splits)

lemma expand_http_header:
  "field c = ''http-header'' \<Longrightarrow> lbListenerRuleCondition c =
     (if http_header c = [] then Inl (New ''http_header must be set when condition field is http-header'')
      else
        (case hd (http_header c) of
           None \<Rightarrow> Inl (Panic ''interface conversion: interface {} is nil, not map[string]interface {}'')
         | Some b \<Rightarrow> Inr ((emptyRuleCondition ''http-header'')\<lparr>HttpHeaderConfig :=
                Some (HttpHeaderConditionConfig (aws_String (http_header_name b))
                        (interfaceStringSlice (http_header_values b)))\<rparr>)))"
  by (simp add: lbListenerRuleCondition_def assertMap_def Let_def split: option.splits)

lemma expand_http_request_method:
  "field c = ''http-request-method'' \<Longrightarrow> lbListenerRuleCondition c =
     (if http_request_method c = []
      then Inl (New ''http_request_method must be set when condition field is http-request-method'')
      else
        (case hd (http_request_method c) of
           None \<Rightarrow> Inl (Panic ''interface conversion: interface {} is nil, not map[string]interface {}'')
         | Some b \<Rightarrow> Inr ((emptyRuleCondition ''http-request-method'')\<lparr>HttpRequestMethodConfig :=
                Some (HttpRequestMethodConditionConfig (interfaceStringSlice (block_values b)))\<rparr>)))"
  by (simp add: lbListenerRuleCondition_def assertMap_def Let_def split: option.splits)

lemma expand_path_pattern:
  "field c = ''path-pattern'' \<Longrightarrow> lbListenerRuleCondition c =
     (if path_pattern c \<noteq> [] then
        (case hd (path_pattern c) of
           None \<Rightarrow> Inl (Panic ''interface conversion: interface {} is nil, not map[string]interface {}'')
         | Some b \<Rightarrow> Inr ((emptyRuleCondition ''path-pattern'')\<lparr>PathPatternConfig :=
                Some (PathPatternConditionConfig (interfaceStringSlice (block_values b)))\<rparr>))
      else if values' c \<noteq> [] then
        Inr ((emptyRuleCondition ''path-pattern'')\<lparr>PathPatternConfig :=
                Some (PathPatternConditionConfig (interfaceStringSlice (values' c)))\<rparr>)
      else Inl (New ''path_pattern must be set when condition field is path-pattern''))"
  by (simp add: lbListenerRuleCondition_def assertMap_def Let_def split: option.splits)

lemma expand_query_string:
  "field c = ''query-string'' \<Longrightarrow> lbListenerRuleCondition c =
     (if query_string c = [] then Inl (New ''query_string must be set when condition field is query-string'')
      else
        (case hd (query_string c) of
           None \<Rightarrow> Inl (Panic ''interface conversion: interface {} is nil, not map[string]interface {}'')
         | Some b \<Rightarrow> Inr ((emptyRuleCondition ''query-string'')\<lparr>QueryStringConfig :=
                Some (QueryStringConditionConfig
                        (map queryStringKeyValuePair (query_string_values b)))\<rparr>)))"
  by (simp add: lbListenerRuleCondition_def assertMap_def Let_def split: option.splits)

lemma expand_source_ip:
  "field c = ''source-ip'' \<Longrightarrow> lbListenerRuleCondition c =
     (if source_ip c = [] then Inl (New ''source_ip must be set when condition field is source-ip'')
      else
        (case hd (source_ip c) of
           None \<Rightarrow> Inl (Panic ''interface conversion: interface {} is nil, not map[string]interface {}'')
         | Some b \<Rightarrow> Inr ((emptyRuleCondition ''source-ip'')\<lparr>SourceIpConfig :=
                Some (SourceIpConditionConfig (interfaceStringSlice (block_values b)))\<rparr>)))"
  by (simp add: lbListenerRuleCondition_def assertMap_def Let_def split: option.splits)

lemma expand_other:
  "field c \<noteq> ''host-header'' \<Longrightarrow> field c \<noteq> ''http-header'' \<Longrightarrow>
   field c \<noteq> ''http-request-method'' \<Longrightarrow> field c \<noteq> ''path-pattern'' \<Longrightarrow>
   field c \<noteq> ''query-string'' \<Longrightarrow> field c \<noteq> ''source-ip'' \<Longrightarrow>
   lbListenerRuleCondition c = Inr (emptyRuleCondition (field c))"
  by (simp add: lbListenerRuleCondition_def)


subsection \<open>Which inputs the expansion rejects\<close>

lemma field_cases:
  obtains (host_header) "field c = ''host-header''"
  | (http_header) "field c = ''http-header''"
  | (http_request_method) "field c = ''http-request-method''"
  | (path_pattern) "field c = ''path-pattern''"
  | (query_string) "field c = ''query-string''"
  | (source_ip) "field c = ''source-ip''"
  | (other) "field c \<noteq> ''host-header''" "field c \<noteq> ''http-header''"
      "field c \<noteq> ''http-request-method''" "field c \<noteq> ''path-pattern''"
      "field c \<noteq> ''query-string''" "field c \<noteq> ''source-ip''"
  by blast

lemma expand_one:
  assumes "\<not> selectedBlockNil c"
  shows "if blockMissing c then \<exists>msg. lbListenerRuleCondition c = Inl (New msg)
         else \<exists>r. lbListenerRuleCondition c = Inr r"
proof (cases c rule: field_cases)
  case host_header
  with assms show ?thesis
    by (auto simp: expand_host_header selectedBlockNil_def blockMissing_def split: option.splits)
next
  case http_header
  with assms show ?thesis
    by (auto simp: expand_http_header selectedBlockNil_def blockMissing_def split: option.splits)
next
  case http_request_method
  with assms show ?thesis
    by (auto simp: expand_http_request_method selectedBlockNil_def blockMissing_def split: option.splits)
next
  case path_pattern
  with assms show ?thesis
    by (auto simp: expand_path_pattern selectedBlockNil_def blockMissing_def split: option.splits)
next
  case query_string
  with assms show ?thesis
    by (auto simp: expand_query_string selectedBlockNil_def blockMissing_def split: option.splits)
next
  case source_ip
  with assms show ?thesis
    by (auto simp: expand_source_ip selectedBlockNil_def blockMissing_def split: option.splits)
next
  case other
  then show ?thesis
    by (simp add: expand_other blockMissing_def)
qed

lemma expand_all:
  assumes "\<forall>c\<in>set cs. \<not> selectedBlockNil c"
  shows "if \<exists>c\<in>set cs. blockMissing c
         then \<exists>msg. lbListenerRuleConditions cs = Inl (New msg)
         else \<exists>elb. lbListenerRuleConditions cs = Inr elb \<and> length elb = length cs"
  using assms
proof (induction cs)
  case Nil
  then show ?case by simp
next
  case (Cons c cs)
  from Cons.prems have c: "\<not> selectedBlockNil c" and cs: "\<forall>c\<in>set cs. \<not> selectedBlockNil c"
    by simp_all
  show ?case
  proof (cases "blockMissing c")
    case True
    with expand_one [OF c] obtain msg where "lbListenerRuleCondition c = Inl (New msg)"
      by auto
    with True show ?thesis by auto
  next
    case False
    with expand_one [OF c] obtain r where r: "lbListenerRuleCondition c = Inr r"
      by auto
    from Cons.IH [OF cs] False r show ?thesis
      by (auto split: if_splits)
  qed
qed


text \<open>
  Where every block the expansion asserts to be a map is one (no condition has a \<^verbatim>\<open>nil\<close>
  first element in the block list of its field), \<^verbatim>\<open>lbListenerRuleConditions\<close> returns
  \<^verbatim>\<open>(nil, error)\<close> if and only if some condition has field \<^verbatim>\<open>http-header\<close>,
  \<^verbatim>\<open>http-request-method\<close>, \<^verbatim>\<open>query-string\<close> or \<^verbatim>\<open>source-ip\<close> with its block list empty, or
  field \<^verbatim>\<open>host-header\<close> or \<^verbatim>\<open>path-pattern\<close> with both its block list and the deprecated
  \<^verbatim>\<open>values\<close> list empty; otherwise it returns a slice with one element per condition and
  no error.
\<close>

theorem lbListenerRuleConditions_error_iff:
  assumes "\<forall>c\<in>set cs. \<not> selectedBlockNil c"
  shows "((\<exists>msg. lbListenerRuleConditions cs = Inl (New msg)) \<longleftrightarrow> (\<exists>c\<in>set cs. blockMissing c))
       \<and> ((\<not> (\<exists>c\<in>set cs. blockMissing c)) \<longrightarrow>
            (\<exists>elb. lbListenerRuleConditions cs = Inr elb \<and> length elb = length cs))"
  using expand_all [OF assms] by (auto split: if_splits)

text \<open>
  The theorem at two inputs: a \<^verbatim>\<open>host-header\<close> condition in the deprecated form followed by
  an \<^verbatim>\<open>http-header\<close> condition without its block (rejected), and the first condition alone
  (accepted, one element).
\<close>

theorem lbListenerRuleConditions_error_iff_witness:
  "(\<exists>msg. lbListenerRuleConditions
      [(emptyCondition ''host-header'')\<lparr>values' := [''example.com'']\<rparr>,
       emptyCondition ''http-header''] = Inl (New msg))
   \<and> (\<exists>elb. lbListenerRuleConditions
      [(emptyCondition ''host-header'')\<lparr>values' := [''example.com'']\<rparr>] = Inr elb
        \<and> length elb = 1)"
proof -
  let ?a = "(emptyCondition ''host-header'')\<lparr>values' := [''example.com'']\<rparr>"
  let ?b = "emptyCondition ''http-header''"
  have 1: "\<forall>c\<in>set [?a, ?b]. \<not> selectedBlockNil c"
    by (simp add: selectedBlockNil_def emptyCondition_def)
  have 2: "\<forall>c\<in>set [?a]. \<not> selectedBlockNil c"
    by (simp add: selectedBlockNil_def emptyCondition_def)
  have 3: "\<exists>c\<in>set [?a, ?b]. blockMissing c"
    by (simp add: blockMissing_def emptyCondition_def)
  have 4: "\<not> (\<exists>c\<in>set [?a]. blockMissing c)"
    by (simp add: blockMissing_def emptyCondition_def)
  from lbListenerRuleConditions_error_iff [OF 1] 3
  have "\<exists>msg. lbListenerRuleConditions [?a, ?b] = Inl (New msg)"
    by blast
  moreover from lbListenerRuleConditions_error_iff [OF 2] 4
  have "\<exists>elb. lbListenerRuleConditions [?a] = Inr elb \<and> length elb = length [?a]"
    by blast
  ultimately show ?thesis by simp
qed

text \<open>
  C7. \<^verbatim>\<open>lbListenerRuleConditions\<close> is to return \<^verbatim>\<open>(nil, error)\<close> exactly when some
  condition's block is missing, and a slice with one element per condition otherwise. The
  code departs from this on the one-element input whose condition has the field
  \<^verbatim>\<open>host-header\<close> and the \<^verbatim>\<open>host_header\<close> block list \<^verbatim>\<open>[nil]\<close>: no block is missing, so a
  slice of length one is due, and the type assertion of line 1237, made without a test of
  the element, panics: the function returns neither an error nor a slice.
\<close>

theorem lbListenerRuleConditions_nil_block_panics:
  "\<not> blockMissing ((emptyCondition ''host-header'')\<lparr>host_header := [None]\<rparr>)
   \<and> lbListenerRuleConditions [(emptyCondition ''host-header'')\<lparr>host_header := [None]\<rparr>]
     = Inl (Panic ''interface conversion: interface {} is nil, not map[string]interface {}'')"
  by (simp add: lbListenerRuleCondition_def emptyCondition_def assertMap_def blockMissing_def)

text \<open>
  The sibling \<^verbatim>\<open>lbListenerRuleConditionSetHash\<close> tests the same element with
  \<^verbatim>\<open>hostHeader[0] != nil\<close> before it asserts: on the same condition it builds its text
  without failing.
\<close>

lemma lbListenerRuleConditionSetHash_buf_nil_block:
  "lbListenerRuleConditionSetHash_buf ((emptyCondition ''host-header'')\<lparr>host_header := [None]\<rparr>)
     = ''host-header-''"
  by (simp add: lbListenerRuleConditionSetHash_buf_def emptyCondition_def)


subsection \<open>The hash text, field by field\<close>

lemma buf_host_header:
  "field m = ''host-header'' \<Longrightarrow> lbListenerRuleConditionSetHash_buf m =
     ''host-header-'' @
     (if host_header m \<noteq> [] then
        (case hd (host_header m) of Some b \<Rightarrow> fprint_values (block_values b) | None \<Rightarrow> [])
      else fprint_values (values' m))"
  by (simp add: lbListenerRuleConditionSetHash_buf_def Let_def)

lemma buf_http_header:
  "field m = ''http-header'' \<Longrightarrow> lbListenerRuleConditionSetHash_buf m =
     ''http-header-'' @
     (if http_header m \<noteq> [] \<and> hd (http_header m) \<noteq> None then
        http_header_name (the (hd (http_header m))) @ ''-''
          @ fprint_values (http_header_values (the (hd (http_header m))))
      else [])"
  by (simp add: lbListenerRuleConditionSetHash_buf_def Let_def)

lemma buf_http_request_method:
  "field m = ''http-request-method'' \<Longrightarrow> lbListenerRuleConditionSetHash_buf m =
     ''http-request-method-'' @
     (if http_request_method m \<noteq> [] \<and> hd (http_request_method m) \<noteq> None then
        fprint_values (block_values (the (hd (http_request_method m))))
      else [])"
  by (simp add: lbListenerRuleConditionSetHash_buf_def Let_def)

lemma buf_path_pattern:
  "field m = ''path-pattern'' \<Longrightarrow> lbListenerRuleConditionSetHash_buf m =
     ''path-pattern-'' @
     (if path_pattern m \<noteq> [] then
        (case hd (path_pattern m) of Some b \<Rightarrow> fprint_values (block_values b) | None \<Rightarrow> [])
      else fprint_values (values' m))"
  by (simp add: lbListenerRuleConditionSetHash_buf_def Let_def)

lemma buf_query_string:
  "field m = ''query-string'' \<Longrightarrow> lbListenerRuleConditionSetHash_buf m =
     ''query-string-'' @
     (if query_string m \<noteq> [] \<and> hd (query_string m) \<noteq> None then
        concat (map (\<lambda>l. pair_key l @ ''-'' @ pair_value l @ ''-'')
                    (query_string_values (the (hd (query_string m)))))
      else [])"
  by (simp add: lbListenerRuleConditionSetHash_buf_def Let_def)

lemma buf_source_ip:
  "field m = ''source-ip'' \<Longrightarrow> lbListenerRuleConditionSetHash_buf m =
     ''source-ip-'' @
     (if source_ip m \<noteq> [] \<and> hd (source_ip m) \<noteq> None then
        fprint_values (block_values (the (hd (source_ip m))))
      else [])"
  by (simp add: lbListenerRuleConditionSetHash_buf_def Let_def)

lemma buf_other:
  "field m \<noteq> ''host-header'' \<Longrightarrow> field m \<noteq> ''http-header'' \<Longrightarrow>
   field m \<noteq> ''http-request-method'' \<Longrightarrow> field m \<noteq> ''path-pattern'' \<Longrightarrow>
   field m \<noteq> ''query-string'' \<Longrightarrow> field m \<noteq> ''source-ip'' \<Longrightarrow>
   lbListenerRuleConditionSetHash_buf m = field m @ ''-''"
  by (simp add: lbListenerRuleConditionSetHash_buf_def)

subsection \<open>What the hash depends on\<close>

text \<open>
  C5 (as amended). The hash is a function of the condition block: equal blocks have equal
  hashes. It depends only on the \<^verbatim>\<open>field\<close> and on the block list of that field (its values
  in order, with the \<^verbatim>\<open>http_header_name\<close> for \<^verbatim>\<open>http-header\<close> and the key/value pairs for
  \<^verbatim>\<open>query-string\<close>) and, for \<^verbatim>\<open>host-header\<close> and \<^verbatim>\<open>path-pattern\<close> with an empty block list, on
  the deprecated top-level \<^verbatim>\<open>values\<close> list; it depends on no other key: two condition
  blocks that agree on these have the same hash.
\<close>

theorem hash_depends_only_on_selected_block:
  assumes "field m = field m'"
    and "field m = ''host-header'' \<longrightarrow>
           host_header m = host_header m' \<and> (host_header m = [] \<longrightarrow> values' m = values' m')"
    and "field m = ''http-header'' \<longrightarrow> http_header m = http_header m'"
    and "field m = ''http-request-method'' \<longrightarrow> http_request_method m = http_request_method m'"
    and "field m = ''path-pattern'' \<longrightarrow>
           path_pattern m = path_pattern m' \<and> (path_pattern m = [] \<longrightarrow> values' m = values' m')"
    and "field m = ''query-string'' \<longrightarrow> query_string m = query_string m'"
    and "field m = ''source-ip'' \<longrightarrow> source_ip m = source_ip m'"
  shows "lbListenerRuleConditionSetHash m = lbListenerRuleConditionSetHash m'"
proof -
  have "lbListenerRuleConditionSetHash_buf m = lbListenerRuleConditionSetHash_buf m'"
  proof (cases "field m = ''host-header''")
    case True
    with assms(1,2) show ?thesis by (simp add: buf_host_header)
  next
    case hh: False
    show ?thesis
    proof (cases "field m = ''http-header''")
      case True
      with assms(1,3) show ?thesis by (simp add: buf_http_header)
    next
      case http: False
      show ?thesis
      proof (cases "field m = ''http-request-method''")
        case True
        with assms(1,4) show ?thesis by (simp add: buf_http_request_method)
      next
        case hrm: False
        show ?thesis
        proof (cases "field m = ''path-pattern''")
          case True
          with assms(1,5) show ?thesis by (simp add: buf_path_pattern)
        next
          case pp: False
          show ?thesis
          proof (cases "field m = ''query-string''")
            case True
            with assms(1,6) show ?thesis by (simp add: buf_query_string)
          next
            case qs: False
            show ?thesis
            proof (cases "field m = ''source-ip''")
              case True
              with assms(1,7) show ?thesis by (simp add: buf_source_ip)
            next
              case False
              with hh http hrm pp qs assms(1) show ?thesis by (simp add: buf_other)
            qed
          qed
        qed
      qed
    qed
  qed
  then show ?thesis by (simp add: lbListenerRuleConditionSetHash_def)
qed

text \<open>
  The theorem at two \<^verbatim>\<open>source-ip\<close> conditions that differ in every key but the field and
  the \<^verbatim>\<open>source_ip\<close> block.
\<close>

theorem hash_depends_only_on_selected_block_witness:
  "lbListenerRuleConditionSetHash
     ((emptyCondition ''source-ip'')\<lparr>source_ip := [Some (ValuesBlock [''192.168.0.0/16''])]\<rparr>)
   = lbListenerRuleConditionSetHash
     \<lparr>field = ''source-ip'', host_header = [Some (ValuesBlock [''example.com''])],
      http_header = [None], http_request_method = [Some (ValuesBlock [''GET''])],
      path_pattern = [Some (ValuesBlock [''/public/*''])],
      query_string = [Some (QueryStringBlock [QueryStringPair ''k'' ''v''])],
      source_ip = [Some (ValuesBlock [''192.168.0.0/16''])], values' = [''x'']\<rparr>"
  by (rule hash_depends_only_on_selected_block) (simp_all add: emptyCondition_def)

text \<open>
  C5 as stated fails on the deprecated representation: two \<^verbatim>\<open>host-header\<close> conditions with
  the same field and the same (empty) \<^verbatim>\<open>host_header\<close> block, which differ only in the
  top-level \<^verbatim>\<open>values\<close> key, have the hashes 3094141394 and 2470545937.
\<close>

theorem hash_depends_on_deprecated_values_counterexample:
  "field ((emptyCondition ''host-header'')\<lparr>values' := [''a'']\<rparr>)
     = field ((emptyCondition ''host-header'')\<lparr>values' := [''b'']\<rparr>)
   \<and> host_header ((emptyCondition ''host-header'')\<lparr>values' := [''a'']\<rparr>)
     = host_header ((emptyCondition ''host-header'')\<lparr>values' := [''b'']\<rparr>)
   \<and> lbListenerRuleConditionSetHash ((emptyCondition ''host-header'')\<lparr>values' := [''a'']\<rparr>) = 3094141394
   \<and> lbListenerRuleConditionSetHash ((emptyCondition ''host-header'')\<lparr>values' := [''b'']\<rparr>) = 2470545937"
  by code_simp

text \<open>
  C6. For every list of value strings \<open>vs\<close>, a \<^verbatim>\<open>host-header\<close> condition whose \<^verbatim>\<open>host_header\<close>
  block list is empty and whose deprecated \<^verbatim>\<open>values\<close> list is \<open>vs\<close> has the same hash as a
  \<^verbatim>\<open>host-header\<close> condition whose \<^verbatim>\<open>host_header\<close> block holds exactly \<open>vs\<close>, whatever the
  other keys of the two maps are; and likewise for \<^verbatim>\<open>path-pattern\<close>.
\<close>

theorem hash_deprecated_values:
  "lbListenerRuleConditionSetHash (m\<lparr>field := ''host-header'', host_header := [], values' := vs\<rparr>)
     = lbListenerRuleConditionSetHash (m'\<lparr>field := ''host-header'', host_header := [Some (ValuesBlock vs)]\<rparr>)
   \<and> lbListenerRuleConditionSetHash (m\<lparr>field := ''path-pattern'', path_pattern := [], values' := vs\<rparr>)
     = lbListenerRuleConditionSetHash (m'\<lparr>field := ''path-pattern'', path_pattern := [Some (ValuesBlock vs)]\<rparr>)"
  by (simp add: lbListenerRuleConditionSetHash_def buf_host_header buf_path_pattern)


text \<open>
  The acceptance test \<^verbatim>\<open>TestAccAWSLBListenerRule_conditionHostHeader_deprecated\<close> expects
  the \<^verbatim>\<open>host-header\<close> condition with the value \<^verbatim>\<open>example.com\<close> under the set hash
  887624213: the embedding of \<^verbatim>\<open>hashcode.String\<close> gives that hash.
\<close>

lemma TestAccAWSLBListenerRule_conditionHostHeader_deprecated_hash:
  "lbListenerRuleConditionSetHash ((emptyCondition ''host-header'')\<lparr>values' := [''example.com'']\<rparr>)
     = 887624213"
  by code_simp

subsection \<open>Flattening, then expanding\<close>

lemma StringValueSlice_interfaceStringSlice:
  "StringValueSlice (interfaceStringSlice vs) = vs"
  by (simp add: StringValueSlice_def interfaceStringSlice_def aws_String_def StringValue_def comp_def)

lemma interfaceStringSlice_StringValueSlice:
  assumes "None \<notin> set ps"
  shows "interfaceStringSlice (StringValueSlice ps) = ps"
proof -
  have "aws_String (StringValue x) = x" if "x \<in> set ps" for x
  proof (cases x)
    case None
    with that assms show ?thesis by simp
  next
    case (Some s)
    then show ?thesis by (simp add: aws_String_def StringValue_def)
  qed
  then show ?thesis
    by (simp add: StringValueSlice_def interfaceStringSlice_def map_idI)
qed

lemma flatten_field: "field (flattenRuleCondition c) = StringValue (Field c)"
  by (simp add: flattenRuleCondition_def)

lemma pair_roundtrip:
  "queryStringKeyValuePair (QueryStringPair (StringValue (Key v)) (StringValue (Value v)))
     = QueryStringKeyValuePair (if StringValue (Key v) = [] then None else Key v)
         (Some (StringValue (Value v)))"
  by (cases v) (auto simp: queryStringKeyValuePair_def aws_String_def StringValue_def split: option.splits)

text \<open>
  C1. For every rule condition whose \<^verbatim>\<open>Field\<close> is one of the six field names and whose
  config for that field is not \<^verbatim>\<open>nil\<close>, flattening it as \<^verbatim>\<open>resourceAwsLbListenerRuleRead\<close>
  does and expanding the result with \<^verbatim>\<open>lbListenerRuleConditions\<close> succeeds with one rule
  condition that has the same \<^verbatim>\<open>Field\<close>, a config for that field, and in it the same
  strings in the same order (with the same header name for \<^verbatim>\<open>http-header\<close>); when no
  pointer of the original config is \<^verbatim>\<open>nil\<close> the config is the original one. For
  \<^verbatim>\<open>query-string\<close> the key/value strings are the same, and a pair's \<^verbatim>\<open>Key\<close> comes back
  absent exactly when its key string is empty.
\<close>

theorem flatten_expand_roundtrip:
  assumes "Field c = Some f"
    and "(f = ''host-header'' \<and> HostHeaderConfig c \<noteq> None)
       \<or> (f = ''http-header'' \<and> HttpHeaderConfig c \<noteq> None)
       \<or> (f = ''http-request-method'' \<and> HttpRequestMethodConfig c \<noteq> None)
       \<or> (f = ''path-pattern'' \<and> PathPatternConfig c \<noteq> None)
       \<or> (f = ''query-string'' \<and> QueryStringConfig c \<noteq> None)
       \<or> (f = ''source-ip'' \<and> SourceIpConfig c \<noteq> None)"
  shows "\<exists>c'. lbListenerRuleConditions (flattenRuleConditions [c]) = Inr [c']
      \<and> Field c' = Field c
      \<and> (f = ''host-header'' \<longrightarrow> HostHeaderConfig c' \<noteq> None
           \<and> StringValueSlice (HostHeader_Values (the (HostHeaderConfig c')))
             = StringValueSlice (HostHeader_Values (the (HostHeaderConfig c)))
           \<and> (None \<notin> set (HostHeader_Values (the (HostHeaderConfig c)))
                \<longrightarrow> HostHeaderConfig c' = HostHeaderConfig c))
      \<and> (f = ''http-header'' \<longrightarrow> HttpHeaderConfig c' \<noteq> None
           \<and> StringValue (HttpHeaderName (the (HttpHeaderConfig c')))
             = StringValue (HttpHeaderName (the (HttpHeaderConfig c)))
           \<and> StringValueSlice (HttpHeader_Values (the (HttpHeaderConfig c')))
             = StringValueSlice (HttpHeader_Values (the (HttpHeaderConfig c)))
           \<and> (HttpHeaderName (the (HttpHeaderConfig c)) \<noteq> None
                \<and> None \<notin> set (HttpHeader_Values (the (HttpHeaderConfig c)))
                \<longrightarrow> HttpHeaderConfig c' = HttpHeaderConfig c))
      \<and> (f = ''http-request-method'' \<longrightarrow> HttpRequestMethodConfig c' \<noteq> None
           \<and> StringValueSlice (HttpRequestMethod_Values (the (HttpRequestMethodConfig c')))
             = StringValueSlice (HttpRequestMethod_Values (the (HttpRequestMethodConfig c)))
           \<and> (None \<notin> set (HttpRequestMethod_Values (the (HttpRequestMethodConfig c)))
                \<longrightarrow> HttpRequestMethodConfig c' = HttpRequestMethodConfig c))
      \<and> (f = ''path-pattern'' \<longrightarrow> PathPatternConfig c' \<noteq> None
           \<and> StringValueSlice (PathPattern_Values (the (PathPatternConfig c')))
             = StringValueSlice (PathPattern_Values (the (PathPatternConfig c)))
           \<and> (None \<notin> set (PathPattern_Values (the (PathPatternConfig c)))
                \<longrightarrow> PathPatternConfig c' = PathPatternConfig c))
      \<and> (f = ''query-string'' \<longrightarrow> QueryStringConfig c' \<noteq> None
           \<and> map (\<lambda>p. (StringValue (Key p), StringValue (Value p)))
                 (QueryString_Values (the (QueryStringConfig c')))
             = map (\<lambda>p. (StringValue (Key p), StringValue (Value p)))
                 (QueryString_Values (the (QueryStringConfig c)))
           \<and> map Key (QueryString_Values (the (QueryStringConfig c')))
             = map (\<lambda>p. if StringValue (Key p) = [] then None else Key p)
                 (QueryString_Values (the (QueryStringConfig c))))
      \<and> (f = ''source-ip'' \<longrightarrow> SourceIpConfig c' \<noteq> None
           \<and> StringValueSlice (SourceIp_Values (the (SourceIpConfig c')))
             = StringValueSlice (SourceIp_Values (the (SourceIpConfig c)))
           \<and> (None \<notin> set (SourceIp_Values (the (SourceIpConfig c)))
                \<longrightarrow> SourceIpConfig c' = SourceIpConfig c))"
proof -
  have fld: "field (flattenRuleCondition c) = f"
    using assms(1) by (simp add: flattenRuleCondition_def StringValue_def)
  from assms(2) show ?thesis
  proof (elim disjE conjE, goal_cases hh http hrm pp qs sip)
    case hh
    then obtain cfg where cfg: "HostHeaderConfig c = Some cfg" by auto
    have "lbListenerRuleCondition (flattenRuleCondition c) =
        Inr ((emptyRuleCondition ''host-header'')\<lparr>HostHeaderConfig :=
          Some (HostHeaderConditionConfig (interfaceStringSlice (StringValueSlice (HostHeader_Values cfg))))\<rparr>)"
      using fld hh(1) cfg by (simp add: expand_host_header) (simp add: flattenRuleCondition_def)
    then show ?thesis
      using hh(1) cfg assms(1)
      by (cases cfg) (simp add: flattenRuleConditions_def emptyRuleCondition_def aws_String_def
          StringValueSlice_interfaceStringSlice interfaceStringSlice_StringValueSlice)
  next
    case http
    then obtain cfg where cfg: "HttpHeaderConfig c = Some cfg" by auto
    have "lbListenerRuleCondition (flattenRuleCondition c) =
        Inr ((emptyRuleCondition ''http-header'')\<lparr>HttpHeaderConfig :=
          Some (HttpHeaderConditionConfig (aws_String (StringValue (HttpHeaderName cfg)))
             (interfaceStringSlice (StringValueSlice (HttpHeader_Values cfg))))\<rparr>)"
      using fld http(1) cfg by (simp add: expand_http_header) (simp add: flattenRuleCondition_def)
    then show ?thesis
      using http(1) cfg assms(1)
      by (cases cfg) (auto simp add: flattenRuleConditions_def emptyRuleCondition_def aws_String_def
          StringValueSlice_interfaceStringSlice interfaceStringSlice_StringValueSlice StringValue_def)
  next
    case hrm
    then obtain cfg where cfg: "HttpRequestMethodConfig c = Some cfg" by auto
    have "lbListenerRuleCondition (flattenRuleCondition c) =
        Inr ((emptyRuleCondition ''http-request-method'')\<lparr>HttpRequestMethodConfig :=
          Some (HttpRequestMethodConditionConfig
             (interfaceStringSlice (StringValueSlice (HttpRequestMethod_Values cfg))))\<rparr>)"
      using fld hrm(1) cfg by (simp add: expand_http_request_method) (simp add: flattenRuleCondition_def)
    then show ?thesis
      using hrm(1) cfg assms(1)
      by (cases cfg) (simp add: flattenRuleConditions_def emptyRuleCondition_def aws_String_def
          StringValueSlice_interfaceStringSlice interfaceStringSlice_StringValueSlice)
  next
    case pp
    then obtain cfg where cfg: "PathPatternConfig c = Some cfg" by auto
    have "lbListenerRuleCondition (flattenRuleCondition c) =
        Inr ((emptyRuleCondition ''path-pattern'')\<lparr>PathPatternConfig :=
          Some (PathPatternConditionConfig
             (interfaceStringSlice (StringValueSlice (PathPattern_Values cfg))))\<rparr>)"
      using fld pp(1) cfg by (simp add: expand_path_pattern) (simp add: flattenRuleCondition_def)
    then show ?thesis
      using pp(1) cfg assms(1)
      by (cases cfg) (simp add: flattenRuleConditions_def emptyRuleCondition_def aws_String_def
          StringValueSlice_interfaceStringSlice interfaceStringSlice_StringValueSlice)
  next
    case qs
    then obtain cfg where cfg: "QueryStringConfig c = Some cfg" by auto
    have "lbListenerRuleCondition (flattenRuleCondition c) =
        Inr ((emptyRuleCondition ''query-string'')\<lparr>QueryStringConfig :=
          Some (QueryStringConditionConfig
             (map (\<lambda>v. QueryStringKeyValuePair (if StringValue (Key v) = [] then None else Key v)
                      (Some (StringValue (Value v)))) (QueryString_Values cfg)))\<rparr>)"
      using fld qs(1) cfg
      by (simp add: expand_query_string) (simp add: flattenRuleCondition_def comp_def pair_roundtrip)
    then show ?thesis
      using qs(1) cfg assms(1)
      by (cases cfg) (simp add: flattenRuleConditions_def emptyRuleCondition_def aws_String_def comp_def
           StringValue_def)
  next
    case sip
    then obtain cfg where cfg: "SourceIpConfig c = Some cfg" by auto
    have "lbListenerRuleCondition (flattenRuleCondition c) =
        Inr ((emptyRuleCondition ''source-ip'')\<lparr>SourceIpConfig :=
          Some (SourceIpConditionConfig
             (interfaceStringSlice (StringValueSlice (SourceIp_Values cfg))))\<rparr>)"
      using fld sip(1) cfg by (simp add: expand_source_ip) (simp add: flattenRuleCondition_def)
    then show ?thesis
      using sip(1) cfg assms(1)
      by (cases cfg) (simp add: flattenRuleConditions_def emptyRuleCondition_def aws_String_def
          StringValueSlice_interfaceStringSlice interfaceStringSlice_StringValueSlice)
  qed
qed

text \<open>The theorem at a \<^verbatim>\<open>query-string\<close> condition with one pair without a key and one with.\<close>

theorem flatten_expand_roundtrip_witness:
  "\<exists>c'. lbListenerRuleConditions (flattenRuleConditions
      [(emptyRuleCondition ''query-string'')\<lparr>QueryStringConfig :=
         Some (QueryStringConditionConfig
           [QueryStringKeyValuePair None (Some ''v1''),
            QueryStringKeyValuePair (Some ''k'') (Some ''v2'')])\<rparr>]) = Inr [c']
     \<and> Field c' = Some ''query-string''
     \<and> map (\<lambda>p. (StringValue (Key p), StringValue (Value p)))
           (QueryString_Values (the (QueryStringConfig c'))) = [([], ''v1''), (''k'', ''v2'')]
     \<and> map Key (QueryString_Values (the (QueryStringConfig c'))) = [None, Some ''k'']"
proof -
  let ?c = "(emptyRuleCondition ''query-string'')\<lparr>QueryStringConfig :=
         Some (QueryStringConditionConfig
           [QueryStringKeyValuePair None (Some ''v1''),
            QueryStringKeyValuePair (Some ''k'') (Some ''v2'')])\<rparr>"
  have 1: "Field ?c = Some ''query-string''"
    by (simp add: emptyRuleCondition_def aws_String_def)
  have 2: "QueryStringConfig ?c \<noteq> None"
    by simp
  from flatten_expand_roundtrip [of ?c "''query-string''"] 1 2
  show ?thesis
    by (auto simp: StringValue_def emptyRuleCondition_def)
qed


subsection \<open>The search finds exactly the readings of the pattern\<close>

lemma take_le_takeWhile:
  assumes "k \<le> length (takeWhile P s)"
  shows "list_all P (take k s)"
proof -
  have "take k s = take k (takeWhile P s @ dropWhile P s)" by simp
  also have "\<dots> = take k (takeWhile P s)"
    using assms by (simp del: takeWhile_dropWhile_id)
  finally have "set (take k s) \<subseteq> set (takeWhile P s)" by (simp add: set_take_subset)
  then show ?thesis by (auto simp: list_all_iff dest: set_takeWhileD)
qed

lemma backtrack_Plus_iff:
  "(rest, gs') \<in> set (backtrack (Plus c) (s, gs)) \<longleftrightarrow>
     (\<exists>u. s = u @ rest \<and> matches (Plus c) u gs gs')"
proof
  assume "(rest, gs') \<in> set (backtrack (Plus c) (s, gs))"
  then obtain k where k: "1 \<le> k" "k \<le> length (takeWhile (classMatch c) s)"
    and r: "rest = drop k s" "gs' = gs"
    by auto
  have "k \<le> length s" using k(2) length_takeWhile_le [of "classMatch c" s] by linarith
  with k(1) have "take k s \<noteq> []" by auto
  moreover have "s = take k s @ rest" using r by simp
  ultimately show "\<exists>u. s = u @ rest \<and> matches (Plus c) u gs gs'"
    using take_le_takeWhile [OF k(2)] r(2) by auto
next
  assume "\<exists>u. s = u @ rest \<and> matches (Plus c) u gs gs'"
  then obtain u where u: "s = u @ rest" "u \<noteq> []" "list_all (classMatch c) u" "gs' = gs"
    by auto
  have "takeWhile (classMatch c) s = u @ takeWhile (classMatch c) rest"
    using u(1,3) by (simp add: list_all_iff takeWhile_append2)
  then have "length u \<le> length (takeWhile (classMatch c) s)" by simp
  moreover have "1 \<le> length u" using u(2) by (cases u) auto
  moreover have "rest = drop (length u) s" using u(1) by simp
  ultimately have mem: "length u \<in> set (rev [1 ..< Suc (length (takeWhile (classMatch c) s))])"
    and eq: "(rest, gs') = (\<lambda>k. (drop k s, gs)) (length u)"
    using u(4) by auto
  show "(rest, gs') \<in> set (backtrack (Plus c) (s, gs))"
    unfolding backtrack.simps set_map image_iff using eq mem by blast
qed

lemma backtrack_iff:
  "(rest, gs') \<in> set (backtrack r (s, gs)) \<longleftrightarrow> (\<exists>u. s = u @ rest \<and> matches r u gs gs')"
proof (induction r arbitrary: s gs rest gs')
  case (Lit l)
  show ?case
  proof
    assume "(rest, gs') \<in> set (backtrack (Lit l) (s, gs))"
    then have "take (length l) s = l" "rest = drop (length l) s" "gs' = gs"
      by (auto split: if_splits)
    then have "s = l @ rest" by (metis append_take_drop_id)
    with \<open>gs' = gs\<close> show "\<exists>u. s = u @ rest \<and> matches (Lit l) u gs gs'" by simp
  next
    assume "\<exists>u. s = u @ rest \<and> matches (Lit l) u gs gs'"
    then show "(rest, gs') \<in> set (backtrack (Lit l) (s, gs))" by auto
  qed
next
  case (Plus c)
  show ?case by (rule backtrack_Plus_iff)
next
  case (Group r)
  show ?case
  proof
    assume "(rest, gs') \<in> set (backtrack (Group r) (s, gs))"
    then obtain gm where m: "(rest, gm) \<in> set (backtrack r (s, gs))"
      and g: "gs' = gm @ [take (length s - length rest) s]"
      by auto
    from m Group.IH obtain u where u: "s = u @ rest" "matches r u gs gm" by blast
    with g show "\<exists>u. s = u @ rest \<and> matches (Group r) u gs gs'" by auto
  next
    assume "\<exists>u. s = u @ rest \<and> matches (Group r) u gs gs'"
    then obtain u gm where u: "s = u @ rest" "matches r u gs gm" "gs' = gm @ [u]" by auto
    with Group.IH have "(rest, gm) \<in> set (backtrack r (s, gs))" by blast
    with u show "(rest, gs') \<in> set (backtrack (Group r) (s, gs))"
      by (auto simp: image_iff intro!: bexI [of _ "(rest, gm)"])
  qed
next
  case (Seq a b)
  show ?case
  proof
    assume "(rest, gs') \<in> set (backtrack (Seq a b) (s, gs))"
    then obtain mid gm where 1: "(mid, gm) \<in> set (backtrack a (s, gs))"
      and 2: "(rest, gs') \<in> set (backtrack b (mid, gm))"
      by auto
    from 1 Seq.IH(1) obtain u1 where u1: "s = u1 @ mid" "matches a u1 gs gm" by blast
    from 2 Seq.IH(2) obtain u2 where u2: "mid = u2 @ rest" "matches b u2 gm gs'" by blast
    from u1 u2 have "s = (u1 @ u2) @ rest" "matches (Seq a b) (u1 @ u2) gs gs'" by auto
    then show "\<exists>u. s = u @ rest \<and> matches (Seq a b) u gs gs'" by blast
  next
    assume "\<exists>u. s = u @ rest \<and> matches (Seq a b) u gs gs'"
    then obtain u1 u2 gm where u: "s = (u1 @ u2) @ rest" "matches a u1 gs gm" "matches b u2 gm gs'"
      by auto
    from u(1,2) Seq.IH(1) have "(u2 @ rest, gm) \<in> set (backtrack a (s, gs))" by auto
    moreover from u(3) Seq.IH(2) have "(rest, gs') \<in> set (backtrack b (u2 @ rest, gm))" by blast
    ultimately show "(rest, gs') \<in> set (backtrack (Seq a b) (s, gs))" by auto
  qed
qed

lemma FindStringSubmatch_cases:
  "(FindStringSubmatch re s = [] \<and> \<not> (\<exists>gs. matches re s [] gs))
   \<or> (\<exists>gs. matches re s [] gs \<and> FindStringSubmatch re s = s # gs)"
proof (cases "filter (\<lambda>(rest, groups). rest = []) (backtrack re (s, []))")
  case Nil
  then have "\<forall>gs. ([], gs) \<notin> set (backtrack re (s, []))"
    by (auto simp: filter_empty_conv)
  then have "\<not> (\<exists>gs. matches re s [] gs)" by (simp add: backtrack_iff)
  with Nil show ?thesis by (simp add: FindStringSubmatch_def)
next
  case (Cons x xs)
  obtain rest gs where x: "x = (rest, gs)" by (cases x)
  have "x \<in> set (filter (\<lambda>(rest, groups). rest = []) (backtrack re (s, [])))"
    using Cons by simp
  with x have "rest = []" "([], gs) \<in> set (backtrack re (s, []))" by auto
  then have "matches re s [] gs" by (simp add: backtrack_iff)
  with Cons x show ?thesis by (auto simp: FindStringSubmatch_def)
qed

lemma matches_SeqI:
  "matches a u1 gs gm \<Longrightarrow> matches b u2 gm gs' \<Longrightarrow> matches (Seq a b) (u1 @ u2) gs gs'"
  by auto

lemma matches_ruleArn:
  "matches lbListenerARNFromRuleARNRegexp s [] gs \<longleftrightarrow>
     (\<exists>a b c. ruleArnParts s a b c \<and> gs = [''arn:'' @ a @ '':listener'', ''/'' @ b])"
proof
  assume "matches lbListenerARNFromRuleARNRegexp s [] gs"
  then show "\<exists>a b c. ruleArnParts s a b c \<and> gs = [''arn:'' @ a @ '':listener'', ''/'' @ b]"
    unfolding lbListenerARNFromRuleARNRegexp_def ruleArnParts_def
    by (auto simp: list_all_iff)
next
  assume "\<exists>a b c. ruleArnParts s a b c \<and> gs = [''arn:'' @ a @ '':listener'', ''/'' @ b]"
  then obtain a b c where s: "s = (''arn:'' @ a @ '':listener'') @ ''-rule'' @ (''/'' @ b) @ (''/'' @ c)"
    and a: "a \<noteq> []" "CHR 0x0A \<notin> set a" and b: "b \<noteq> []" "CHR 0x0A \<notin> set b"
    and c: "c \<noteq> []" "CHR ''/'' \<notin> set c"
    and gs: "gs = [''arn:'' @ a @ '':listener'', ''/'' @ b]"
    by (auto simp: ruleArnParts_def)
  let ?g1 = "''arn:'' @ a @ '':listener''"
  have "matches (Seq (Plus AnyCharNotNL) (Lit '':listener'')) (a @ '':listener'') [] []"
    using a by (intro matches_SeqI [where gm = "[]"]) (auto simp: list_all_iff)
  then have "matches (Seq (Lit ''arn:'') (Seq (Plus AnyCharNotNL) (Lit '':listener''))) ?g1 [] []"
    by (intro matches_SeqI [where gm = "[]"]) simp_all
  then have 1: "matches (Group (Seq (Lit ''arn:'') (Seq (Plus AnyCharNotNL) (Lit '':listener''))))
      ?g1 [] [?g1]"
    by simp
  have 2: "matches (Lit ''-rule'') ''-rule'' [?g1] [?g1]"
    by simp
  have "matches (Seq (Lit ''/'') (Plus AnyCharNotNL)) (''/'' @ b) [?g1] [?g1]"
    using b by (intro matches_SeqI [where gm = "[?g1]"]) (auto simp: list_all_iff)
  then have 3: "matches (Group (Seq (Lit ''/'') (Plus AnyCharNotNL))) (''/'' @ b) [?g1] [?g1, ''/'' @ b]"
    by simp
  have 4: "matches (Seq (Lit ''/'') (Plus (NotChars ''/''))) (''/'' @ c) [?g1, ''/'' @ b] [?g1, ''/'' @ b]"
    using c by (intro matches_SeqI [where gm = "[?g1, ''/'' @ b]"]) (auto simp: list_all_iff)
  show "matches lbListenerARNFromRuleARNRegexp s [] gs"
    unfolding lbListenerARNFromRuleARNRegexp_def s gs
    by (intro matches_SeqI [OF 1] matches_SeqI [OF 2] matches_SeqI [OF 3] 4)
qed

text \<open>
  C2. A string matches the pattern \<^verbatim>\<open>^(arn:.+:listener)-rule(/.+)/[^/]+$\<close> exactly when it is
  \<^verbatim>\<open>arn:\<close> \<open>a\<close> \<^verbatim>\<open>:listener-rule/\<close> \<open>b\<close> \<^verbatim>\<open>/\<close> \<open>c\<close> for non-empty \<open>a\<close> and \<open>b\<close> without
  a newline and a non-empty \<open>c\<close> without a slash. For every such string
  \<^verbatim>\<open>FindStringSubmatch\<close> returns the string and two groups \<^verbatim>\<open>arn:\<close> \<open>a\<close> \<^verbatim>\<open>:listener\<close> and
  \<^verbatim>\<open>/\<close> \<open>b\<close> of such a reading, and \<^verbatim>\<open>lbListenerARNFromRuleARN\<close> returns their
  concatenation: the rule ARN without \<^verbatim>\<open>-rule\<close> and without its last segment. For every
  other string there is no match and the function returns the empty string.
\<close>

theorem lbListenerARNFromRuleARN_spec:
  "((\<exists>a b c. ruleArnParts ruleArn a b c) \<longrightarrow>
      (\<exists>a b c. ruleArnParts ruleArn a b c
         \<and> FindStringSubmatch lbListenerARNFromRuleARNRegexp ruleArn
             = [ruleArn, ''arn:'' @ a @ '':listener'', ''/'' @ b]
         \<and> lbListenerARNFromRuleARN ruleArn = (''arn:'' @ a @ '':listener'') @ (''/'' @ b)))
   \<and> (\<not> (\<exists>a b c. ruleArnParts ruleArn a b c) \<longrightarrow>
        FindStringSubmatch lbListenerARNFromRuleARNRegexp ruleArn = []
        \<and> lbListenerARNFromRuleARN ruleArn = [])"
proof -
  from FindStringSubmatch_cases [of lbListenerARNFromRuleARNRegexp ruleArn]
  show ?thesis
  proof (elim disjE conjE exE)
    assume "FindStringSubmatch lbListenerARNFromRuleARNRegexp ruleArn = []"
      and "\<not> (\<exists>gs. matches lbListenerARNFromRuleARNRegexp ruleArn [] gs)"
    then show ?thesis
      by (simp add: matches_ruleArn lbListenerARNFromRuleARN_def)
  next
    fix gs
    assume m: "matches lbListenerARNFromRuleARNRegexp ruleArn [] gs"
      and f: "FindStringSubmatch lbListenerARNFromRuleARNRegexp ruleArn = ruleArn # gs"
    from m obtain a b c where p: "ruleArnParts ruleArn a b c"
      and gs: "gs = [''arn:'' @ a @ '':listener'', ''/'' @ b]"
      unfolding matches_ruleArn by blast
    have "lbListenerARNFromRuleARN ruleArn = (''arn:'' @ a @ '':listener'') @ (''/'' @ b)"
      unfolding lbListenerARNFromRuleARN_def f gs by simp
    with p f gs show ?thesis by blast
  qed
qed

text \<open>
  The theorem at the rule ARN of the unit test, which matches, and at the test's text that
  is no ARN, which does not.
\<close>

theorem lbListenerARNFromRuleARN_spec_witness:
  "(\<exists>a b c. ruleArnParts
       ''arn:aws:elasticloadbalancing:us-east-1:012345678912:listener-rule/app/name/0123456789abcdef/abcdef0123456789/456789abcedf1234''
       a b c
     \<and> lbListenerARNFromRuleARN
       ''arn:aws:elasticloadbalancing:us-east-1:012345678912:listener-rule/app/name/0123456789abcdef/abcdef0123456789/456789abcedf1234''
       = (''arn:'' @ a @ '':listener'') @ (''/'' @ b))
   \<and> lbListenerARNFromRuleARN ''blah blah blah'' = []"
proof -
  let ?arn = "''arn:aws:elasticloadbalancing:us-east-1:012345678912:listener-rule/app/name/0123456789abcdef/abcdef0123456789/456789abcedf1234''"
  have "ruleArnParts ?arn ''aws:elasticloadbalancing:us-east-1:012345678912''
          ''app/name/0123456789abcdef/abcdef0123456789'' ''456789abcedf1234''"
    by (simp add: ruleArnParts_def)
  then have 1: "\<exists>a b c. ruleArnParts ?arn a b c"
    by blast
  have 2: "\<not> (\<exists>a b c. ruleArnParts ''blah blah blah'' a b c)"
    by (simp add: ruleArnParts_def)
  from lbListenerARNFromRuleARN_spec [of ?arn] 1
  have "\<exists>a b c. ruleArnParts ?arn a b c
     \<and> lbListenerARNFromRuleARN ?arn = (''arn:'' @ a @ '':listener'') @ (''/'' @ b)"
    by blast
  moreover from lbListenerARNFromRuleARN_spec [of "''blah blah blah''"] 2
  have "lbListenerARNFromRuleARN ''blah blah blah'' = []"
    by blast
  ultimately show ?thesis by blast
qed

text \<open>The five cases of \<^verbatim>\<open>TestLBListenerARNFromRuleARN\<close>, run on the embedding.\<close>

lemma TestLBListenerARNFromRuleARN_valid:
  "lbListenerARNFromRuleARN
     ''arn:aws:elasticloadbalancing:us-east-1:012345678912:listener-rule/app/name/0123456789abcdef/abcdef0123456789/456789abcedf1234''
   = ''arn:aws:elasticloadbalancing:us-east-1:012345678912:listener/app/name/0123456789abcdef/abcdef0123456789''"
  by code_simp

lemma TestLBListenerARNFromRuleARN_listener_arn:
  "lbListenerARNFromRuleARN
     ''arn:aws:elasticloadbalancing:us-east-1:012345678912:listener/app/name/0123456789abcdef/abcdef0123456789''
   = []"
  by code_simp

lemma TestLBListenerARNFromRuleARN_other_arn:
  "lbListenerARNFromRuleARN
     ''arn:aws:elasticloadbalancing:us-east-1:123456:targetgroup/my-targets/73e2d6bc24d8a067'' = []"
  by code_simp

lemma TestLBListenerARNFromRuleARN_not_an_arn:
  "lbListenerARNFromRuleARN ''blah blah blah'' = []"
  by code_simp

lemma TestLBListenerARNFromRuleARN_empty:
  "lbListenerARNFromRuleARN [] = []"
  by code_simp

text \<open>
  Where the text \<^verbatim>\<open>:listener-rule/\<close> occurs twice, the greedy first \<^verbatim>\<open>.+\<close> takes the reading
  with the longer \<open>a\<close>.
\<close>

lemma lbListenerARNFromRuleARN_greedy_example:
  "lbListenerARNFromRuleARN ''arn:x:listener-rule/a:listener-rule/b/c''
   = ''arn:x:listener-rule/a:listener/b''"
  by code_simp


subsection \<open>Deleting\<close>

lemma strings_Contains_empty: "strings_Contains m []"
  by (auto simp: strings_Contains_def list_ex_iff)

text \<open>
  C9. \<^verbatim>\<open>resourceAwsLbListenerRuleDelete\<close> returns \<^verbatim>\<open>nil\<close> exactly when \<^verbatim>\<open>DeleteRule\<close> succeeds or
  fails with an AWS error whose code is \<^verbatim>\<open>RuleNotFound\<close> (the value of
  \<^verbatim>\<open>elbv2.ErrCodeRuleNotFoundException\<close>); for every other failure it returns the error
  \<^verbatim>\<open>Error deleting LB Listener Rule\<close> wrapping it. It makes this one call and no other.
\<close>

theorem resourceAwsLbListenerRuleDelete_idempotent:
  "(fst (resourceAwsLbListenerRuleDelete elbconn d w) = None \<longleftrightarrow>
      fst (DeleteRule elbconn \<lparr>DeleteRule_RuleArn = Some (Id d)\<rparr> w) = None
      \<or> (\<exists>msg. fst (DeleteRule elbconn \<lparr>DeleteRule_RuleArn = Some (Id d)\<rparr> w)
                  = Some (AWSError ''RuleNotFound'' msg)))
   \<and> (fst (resourceAwsLbListenerRuleDelete elbconn d w) = None
       \<or> fst (resourceAwsLbListenerRuleDelete elbconn d w)
          = Some (Errorf ''Error deleting LB Listener Rule: %s'' []
                    (fst (DeleteRule elbconn \<lparr>DeleteRule_RuleArn = Some (Id d)\<rparr> w))))
   \<and> snd (resourceAwsLbListenerRuleDelete elbconn d w)
       = snd (DeleteRule elbconn \<lparr>DeleteRule_RuleArn = Some (Id d)\<rparr> w)"
proof -
  obtain err w' where r: "DeleteRule elbconn \<lparr>DeleteRule_RuleArn = Some (Id d)\<rparr> w = (err, w')"
    by (cases "DeleteRule elbconn \<lparr>DeleteRule_RuleArn = Some (Id d)\<rparr> w")
  show ?thesis
  proof (cases err)
    case None
    with r show ?thesis by (simp add: resourceAwsLbListenerRuleDelete_def aws_String_def)
  next
    case (Some e)
    with r show ?thesis
      by (cases e)
         (auto simp: resourceAwsLbListenerRuleDelete_def aws_String_def isAWSErr_def
            ErrCodeRuleNotFoundException_def strings_Contains_empty)
  qed
qed

subsection \<open>Parsing a priority\<close>

lemma isDigit_digitVal: "isDigit c \<Longrightarrow> 0 \<le> digitVal c \<and> digitVal c \<le> 9"
  by (simp add: isDigit_def digitVal_def)

lemma foldl_digits_ge:
  "list_all isDigit ds \<Longrightarrow> 0 \<le> n \<Longrightarrow> n \<le> foldl (\<lambda>n c. n * 10 + digitVal c) n ds"
proof (induction ds arbitrary: n)
  case Nil
  then show ?case by simp
next
  case (Cons c cs)
  then have d: "0 \<le> digitVal c" and cs: "list_all isDigit cs"
    by (simp_all add: isDigit_digitVal)
  with Cons.prems have "n \<le> n * 10 + digitVal c" by simp
  moreover have "n * 10 + digitVal c \<le> foldl (\<lambda>n c. n * 10 + digitVal c) (n * 10 + digitVal c) cs"
    using Cons.IH [OF cs] Cons.prems(2) d by simp
  ultimately show ?case by simp
qed

lemma ParseUint_loop_digits:
  "list_all isDigit ds \<Longrightarrow> 0 \<le> n \<Longrightarrow> n \<le> 2 ^ 64 - 1 \<Longrightarrow>
   ParseUint_loop ds n =
     (if foldl (\<lambda>n c. n * 10 + digitVal c) n ds \<le> 2 ^ 64 - 1
      then (foldl (\<lambda>n c. n * 10 + digitVal c) n ds, None)
      else (2 ^ 64 - 1, Some ErrRange))"
proof (induction ds arbitrary: n)
  case Nil
  then show ?case by simp
next
  case (Cons c cs)
  then have d: "0 \<le> digitVal c" and c: "isDigit c" and cs: "list_all isDigit cs"
    by (simp_all add: isDigit_digitVal)
  let ?n1 = "n * 10 + digitVal c"
  have n1: "0 \<le> ?n1" using Cons.prems(2) d by simp
  have ge: "?n1 \<le> foldl (\<lambda>n c. n * 10 + digitVal c) ?n1 cs"
    by (rule foldl_digits_ge [OF cs n1])
  show ?case
  proof (cases "n \<ge> (2 ^ 64 - 1) div 10 + 1")
    case True
    then have "?n1 > 2 ^ 64 - 1" using d by simp
    with ge True c show ?thesis by simp
  next
    case False
    show ?thesis
    proof (cases "?n1 > 2 ^ 64 - 1")
      case True
      with ge False c show ?thesis by (simp add: Let_def)
    next
      case n1le: False
      then have "?n1 \<le> 2 ^ 64 - 1" by simp
      from False c n1le Cons.IH [OF cs n1 this] show ?thesis by (simp add: Let_def)
    qed
  qed
qed

lemma ParseUint_loop_None:
  "ParseUint_loop ds n = (v, None) \<Longrightarrow> list_all isDigit ds"
  by (induction ds n rule: ParseUint_loop.induct) (auto simp: Let_def split: if_splits)

lemma ParseUint_loop_ErrRange:
  "ParseUint_loop ds n = (v, Some ErrRange) \<Longrightarrow> v = 2 ^ 64 - 1"
  by (induction ds n rule: ParseUint_loop.induct) (auto simp: Let_def split: if_splits)

lemma isDigit_not_sign: "isDigit c \<Longrightarrow> c \<noteq> CHR ''+'' \<and> c \<noteq> CHR ''-''"
  by (auto simp: isDigit_def)

lemma Atoi_digits:
  assumes "ds \<noteq> []" "list_all isDigit ds"
  shows "ParseUint_loop ds 0 =
     (if decimalValue ds \<le> 2 ^ 64 - 1 then (decimalValue ds, None) else (2 ^ 64 - 1, Some ErrRange))"
  using ParseUint_loop_digits [OF assms(2), of 0] by (simp add: decimalValue_def)

lemma decimalValue_nonneg: "list_all isDigit ds \<Longrightarrow> 0 \<le> decimalValue ds"
  using foldl_digits_ge [of ds 0] by (simp add: decimalValue_def)

lemma Atoi_unfold:
  assumes "s \<noteq> []"
    and "ds = (if hd s = CHR ''+'' \<or> hd s = CHR ''-'' then tl s else s)"
    and "ds \<noteq> []"
    and "ParseUint_loop ds 0 = (un, e)"
  shows "Atoi s =
     (if e = Some ErrSyntax then (0, Some (NumError s ErrSyntax))
      else if hd s \<noteq> CHR ''-'' \<and> un \<ge> 2 ^ 63 then (2 ^ 63 - 1, Some (NumError s ErrRange))
      else if hd s = CHR ''-'' \<and> un > 2 ^ 63 then (- (2 ^ 63), Some (NumError s ErrRange))
      else (if hd s = CHR ''-'' then - un else un, None))"
  unfolding Atoi_def Let_def assms(2) [symmetric] assms(4)
  using assms(1,3) by (cases e; (cases "the e")?; simp)

lemma Atoi_unsigned:
  assumes "ds \<noteq> []" "list_all isDigit ds" "decimalValue ds \<le> 2 ^ 63 - 1"
  shows "Atoi ds = (decimalValue ds, None)"
proof -
  have "isDigit (hd ds)" using assms(1,2) by (cases ds) simp_all
  then have h: "hd ds \<noteq> CHR ''+''" "hd ds \<noteq> CHR ''-''" by (simp_all add: isDigit_not_sign)
  have p: "ParseUint_loop ds 0 = (decimalValue ds, None)"
    using Atoi_digits [OF assms(1,2)] assms(3) by simp
  have "ds = (if hd ds = CHR ''+'' \<or> hd ds = CHR ''-'' then tl ds else ds)"
    using h by simp
  from Atoi_unfold [OF assms(1) this assms(1) p] h assms(3) show ?thesis by simp
qed

lemma Atoi_plus:
  assumes "ds \<noteq> []" "list_all isDigit ds" "decimalValue ds \<le> 2 ^ 63 - 1"
  shows "Atoi (CHR ''+'' # ds) = (decimalValue ds, None)"
proof -
  have p: "ParseUint_loop ds 0 = (decimalValue ds, None)"
    using Atoi_digits [OF assms(1,2)] assms(3) by simp
  have "ds = (if hd (CHR ''+'' # ds) = CHR ''+'' \<or> hd (CHR ''+'' # ds) = CHR ''-''
              then tl (CHR ''+'' # ds) else CHR ''+'' # ds)"
    by simp
  from Atoi_unfold [OF _ this assms(1) p] assms(3) show ?thesis by simp
qed

lemma Atoi_minus:
  assumes "ds \<noteq> []" "list_all isDigit ds" "decimalValue ds \<le> 2 ^ 63"
  shows "Atoi (CHR ''-'' # ds) = (- decimalValue ds, None)"
proof -
  have p: "ParseUint_loop ds 0 = (decimalValue ds, None)"
    using Atoi_digits [OF assms(1,2)] assms(3) by simp
  have "ds = (if hd (CHR ''-'' # ds) = CHR ''+'' \<or> hd (CHR ''-'' # ds) = CHR ''-''
              then tl (CHR ''-'' # ds) else CHR ''-'' # ds)"
    by simp
  from Atoi_unfold [OF _ this assms(1) p] assms(3) show ?thesis by simp
qed

lemma Atoi_ok_decimal:
  assumes "Atoi s = (n, None)"
  shows "isDecimalInt s n"
proof -
  from assms have s: "s \<noteq> []" by (auto simp: Atoi_def)
  define ds where "ds = (if hd s = CHR ''+'' \<or> hd s = CHR ''-'' then tl s else s)"
  have ds: "ds \<noteq> []"
  proof
    assume "ds = []"
    then have "Atoi s = (0, Some (NumError s ErrSyntax))"
      unfolding Atoi_def Let_def ds_def [symmetric] using s by simp
    with assms show False by simp
  qed
  obtain un e where p: "ParseUint_loop ds 0 = (un, e)" by (cases "ParseUint_loop ds 0")
  note u = Atoi_unfold [OF s ds_def ds p]
  have e: "e = None"
  proof (cases e)
    case None
    then show ?thesis .
  next
    case (Some k)
    show ?thesis
    proof (cases k)
      case ErrSyntax
      with Some u assms show ?thesis by simp
    next
      case ErrRange
      with Some p have "un = 2 ^ 64 - 1" using ParseUint_loop_ErrRange [of ds 0 un] by simp
      with Some ErrRange u assms show ?thesis by (simp split: if_splits)
    qed
  qed
  with p have digits: "list_all isDigit ds" by (simp add: ParseUint_loop_None)
  from p e Atoi_digits [OF ds digits] have un: "un = decimalValue ds"
    by (simp split: if_splits)
  have nn: "0 \<le> decimalValue ds" by (rule decimalValue_nonneg [OF digits])
  show ?thesis
  proof (cases "hd s = CHR ''-''")
    case True
    with s have "s = ''-'' @ ds" by (cases s) (simp_all add: ds_def)
    moreover from True e un u assms have "n = - decimalValue ds" "decimalValue ds \<le> 2 ^ 63"
      by (simp_all split: if_splits)
    ultimately show ?thesis using ds digits nn unfolding isDecimalInt_def by auto
  next
    case False
    then have "s = ds \<or> s = ''+'' @ ds" using s by (cases s) (auto simp: ds_def)
    moreover from False e un u assms have "n = decimalValue ds" "decimalValue ds < 2 ^ 63"
      by (simp_all split: if_splits)
    ultimately show ?thesis using ds digits nn unfolding isDecimalInt_def by auto
  qed
qed

lemma Atoi_iff: "Atoi s = (n, None) \<longleftrightarrow> isDecimalInt s n"
proof
  assume "Atoi s = (n, None)"
  then show "isDecimalInt s n" by (rule Atoi_ok_decimal)
next
  assume "isDecimalInt s n"
  then obtain ds where ds: "ds \<noteq> []" "list_all isDigit ds"
    and s: "((s = ds \<or> s = ''+'' @ ds) \<and> n = decimalValue ds) \<or> (s = ''-'' @ ds \<and> n = - decimalValue ds)"
    and r: "- (2 ^ 63) \<le> n" "n \<le> 2 ^ 63 - 1"
    by (auto simp: isDecimalInt_def)
  from s show "Atoi s = (n, None)"
  proof (elim disjE conjE)
    assume "s = ds" "n = decimalValue ds"
    with Atoi_unsigned [OF ds] r show ?thesis by simp
  next
    assume "s = ''+'' @ ds" "n = decimalValue ds"
    with Atoi_plus [OF ds] r show ?thesis by simp
  next
    assume "s = ''-'' @ ds" "n = - decimalValue ds"
    with Atoi_minus [OF ds] r show ?thesis by simp
  qed
qed

lemma Atoi_error_iff: "snd (Atoi s) \<noteq> None \<longleftrightarrow> \<not> (\<exists>n. isDecimalInt s n)"
proof -
  have "snd (Atoi s) = None \<longleftrightarrow> (\<exists>n. Atoi s = (n, None))"
    by (cases "Atoi s") auto
  then show ?thesis by (simp add: Atoi_iff)
qed

lemma readRule_default:
  "StringValue (Rule_Priority rule) = ''default'' \<Longrightarrow>
   fst (readRule d rule) = None \<and> attr_priority (snd (readRule d rule)) = Some 99999"
  by (simp add: readRule_def)

lemma readRule_numeral:
  "StringValue (Rule_Priority rule) \<noteq> ''default'' \<Longrightarrow>
   Atoi (StringValue (Rule_Priority rule)) = (p, None) \<Longrightarrow>
   fst (readRule d rule) = None \<and> attr_priority (snd (readRule d rule)) = Some p"
  by (simp add: readRule_def)

lemma readRule_error:
  "StringValue (Rule_Priority rule) \<noteq> ''default'' \<Longrightarrow>
   Atoi (StringValue (Rule_Priority rule)) = (p, Some err) \<Longrightarrow>
   fst (readRule d rule) \<noteq> None \<and> attr_priority (snd (readRule d rule)) = attr_priority d"
  by (simp add: readRule_def)

text \<open>
  The priority block is what \<^verbatim>\<open>resourceAwsLbListenerRuleRead\<close> runs on the one rule that
  \<^verbatim>\<open>DescribeRules\<close> reports.
\<close>

lemma resourceAwsLbListenerRuleRead_one_rule:
  assumes "DescribeRules elbconn
             \<lparr>DescribeRules_ListenerArn = None, Marker = None, RuleArns = [Some (Id d)]\<rparr> w
           = (Inr out, w')"
    and "DescribeRules_Rules out = [rule]"
  shows "resourceAwsLbListenerRuleRead timeout elbconn d w = Some (readRule d rule, w')"
  using assms by (simp add: resourceAwsLbListenerRuleRead_def describeRuleAttempt_def aws_String_def)

text \<open>
  C10. When the API reports the priority \<^verbatim>\<open>"default"\<close>, Read stores 99999. When it reports
  any other text that is a decimal integer (an optional sign and digits, within the range
  of \<^verbatim>\<open>int\<close>), Read stores that integer. Read fails with an error exactly when the text is
  neither \<^verbatim>\<open>"default"\<close> nor such an integer, and then the priority in the resource data
  is left as it was.
\<close>

theorem readRule_priority:
  "(StringValue (Rule_Priority rule) = ''default'' \<longrightarrow>
      fst (readRule d rule) = None \<and> attr_priority (snd (readRule d rule)) = Some 99999)
   \<and> (\<forall>n. StringValue (Rule_Priority rule) \<noteq> ''default''
          \<and> isDecimalInt (StringValue (Rule_Priority rule)) n \<longrightarrow>
      fst (readRule d rule) = None \<and> attr_priority (snd (readRule d rule)) = Some n)
   \<and> (fst (readRule d rule) \<noteq> None \<longleftrightarrow>
        StringValue (Rule_Priority rule) \<noteq> ''default''
        \<and> \<not> (\<exists>n. isDecimalInt (StringValue (Rule_Priority rule)) n))
   \<and> (fst (readRule d rule) \<noteq> None \<longrightarrow>
        attr_priority (snd (readRule d rule)) = attr_priority d)"
proof -
  define s where "s = StringValue (Rule_Priority rule)"
  define dflt where "dflt = ''default''"
  have 1: "fst (readRule d rule) = None \<and> attr_priority (snd (readRule d rule)) = Some 99999"
    if "s = dflt"
    using that readRule_default [of rule d] by (simp add: s_def dflt_def)
  have 2: "fst (readRule d rule) = None \<and> attr_priority (snd (readRule d rule)) = Some n"
    if "s \<noteq> dflt" "isDecimalInt s n" for n
    using that readRule_numeral [of rule n d] by (simp add: s_def dflt_def Atoi_iff)
  have 3: "fst (readRule d rule) \<noteq> None \<and> attr_priority (snd (readRule d rule)) = attr_priority d"
    if "s \<noteq> dflt" "\<not> (\<exists>n. isDecimalInt s n)"
  proof -
    obtain p e where a: "Atoi s = (p, e)" by (cases "Atoi s")
    with that(2) have "e \<noteq> None" using Atoi_iff [of s p] by auto
    then obtain err where "e = Some err" by auto
    with a that(1) readRule_error [of rule p err d] show ?thesis by (simp add: s_def dflt_def)
  qed
  have a: "s = dflt \<longrightarrow>
      fst (readRule d rule) = None \<and> attr_priority (snd (readRule d rule)) = Some 99999"
    using 1 by (rule impI)
  have b: "\<forall>n. s \<noteq> dflt \<and> isDecimalInt s n \<longrightarrow>
      fst (readRule d rule) = None \<and> attr_priority (snd (readRule d rule)) = Some n"
    using 2 by (intro allI impI) (elim conjE)
  have c: "fst (readRule d rule) \<noteq> None \<longleftrightarrow> s \<noteq> dflt \<and> \<not> (\<exists>n. isDecimalInt s n)"
  proof
    assume err: "fst (readRule d rule) \<noteq> None"
    show "s \<noteq> dflt \<and> \<not> (\<exists>n. isDecimalInt s n)"
    proof (intro conjI notI)
      assume "s = dflt"
      with 1 err show False by simp
    next
      assume "\<exists>n. isDecimalInt s n"
      then obtain n where n: "isDecimalInt s n" ..
      show False
      proof (cases "s = dflt")
        case True
        with 1 err show False by simp
      next
        case False
        with 2 [OF False n] err show False by simp
      qed
    qed
  next
    assume "s \<noteq> dflt \<and> \<not> (\<exists>n. isDecimalInt s n)"
    then show "fst (readRule d rule) \<noteq> None" using 3 by simp
  qed
  have e: "fst (readRule d rule) \<noteq> None \<longrightarrow>
        attr_priority (snd (readRule d rule)) = attr_priority d"
  proof
    assume "fst (readRule d rule) \<noteq> None"
    with c have "s \<noteq> dflt" "\<not> (\<exists>n. isDecimalInt s n)" by simp_all
    then show "attr_priority (snd (readRule d rule)) = attr_priority d" using 3 by simp
  qed
  from a b c e show ?thesis unfolding s_def dflt_def by (intro conjI)
qed

text \<open>The theorem at the priorities \<^verbatim>\<open>"default"\<close>, \<^verbatim>\<open>"17"\<close> and \<^verbatim>\<open>"abc"\<close>.\<close>

theorem readRule_priority_witness:
  "fst (readRule \<lparr>Id = ''r'', IsNewResource = False, attr_arn = [], attr_listener_arn = [],
                  attr_priority = None, attr_condition = []\<rparr> (Rule None (Some ''default'') [])) = None
   \<and> attr_priority (snd (readRule \<lparr>Id = ''r'', IsNewResource = False, attr_arn = [],
        attr_listener_arn = [], attr_priority = None, attr_condition = []\<rparr>
        (Rule None (Some ''default'') []))) = Some 99999
   \<and> attr_priority (snd (readRule \<lparr>Id = ''r'', IsNewResource = False, attr_arn = [],
        attr_listener_arn = [], attr_priority = None, attr_condition = []\<rparr>
        (Rule None (Some ''17'') []))) = Some 17
   \<and> fst (readRule \<lparr>Id = ''r'', IsNewResource = False, attr_arn = [], attr_listener_arn = [],
                  attr_priority = None, attr_condition = []\<rparr> (Rule None (Some ''abc'') [])) \<noteq> None"
proof -
  let ?d = "\<lparr>Id = ''r'', IsNewResource = False, attr_arn = [], attr_listener_arn = [],
             attr_priority = None, attr_condition = []\<rparr>"
  have 17: "isDecimalInt ''17'' 17"
    by (rule iffD1 [OF Atoi_iff]) code_simp
  have abc: "\<not> (\<exists>n. isDecimalInt ''abc'' n)"
    by (rule iffD1 [OF Atoi_error_iff]) code_simp
  have s: "StringValue (Some x) = x" for x
    by (simp add: StringValue_def)
  from readRule_priority [of "Rule None (Some ''default'') []" ?d]
  have 1: "fst (readRule ?d (Rule None (Some ''default'') [])) = None
      \<and> attr_priority (snd (readRule ?d (Rule None (Some ''default'') []))) = Some 99999"
    by (simp add: s)
  from readRule_priority [of "Rule None (Some ''17'') []" ?d] 17
  have 2: "attr_priority (snd (readRule ?d (Rule None (Some ''17'') []))) = Some 17"
    by (simp add: s)
  from readRule_priority [of "Rule None (Some ''abc'') []" ?d] abc
  have 3: "fst (readRule ?d (Rule None (Some ''abc'') [])) \<noteq> None"
    by (simp add: s)
  from 1 2 3 show ?thesis by simp
qed


subsection \<open>Allocating a priority\<close>

lemma loop_pages:
  assumes "pagesFrom conn listenerArn marker w outs w'"
  shows "highestListenerRulePriority_loop conn listenerArn marker priorities w
           = Some (Inr (priorities @ rulePriorities (concat (map DescribeRules_Rules outs))), w')"
  using assms
proof (induction arbitrary: priorities rule: pagesFrom.induct)
  case (last_page conn listenerArn marker w out w')
  then show ?case
    by (subst highestListenerRulePriority_loop.simps) (simp add: rulePriorities_def)
next
  case (next_page conn listenerArn marker w out w1 outs w')
  show ?case
    by (subst highestListenerRulePriority_loop.simps)
       (simp add: next_page.hyps(1,2) next_page.IH rulePriorities_def)
qed

lemma sorted_le_last:
  fixes xs :: "int list"
  shows "sorted xs \<Longrightarrow> y \<in> set xs \<Longrightarrow> y \<le> last xs"
proof (induction xs)
  case Nil
  then show ?case by simp
next
  case (Cons x xs)
  show ?case
  proof (cases "xs = []")
    case True
    with Cons.prems show ?thesis by simp
  next
    case False
    then have l: "last xs \<in> set xs" by (rule last_in_set)
    from Cons.prems(2) consider "y = x" | "y \<in> set xs" by auto
    then show ?thesis
    proof cases
      case 1
      with Cons.prems(1) l False show ?thesis by auto
    next
      case 2
      with Cons.IH Cons.prems(1) False show ?thesis by simp
    qed
  qed
qed

lemma last_sort_Max:
  fixes ps :: "int list"
  assumes "ps \<noteq> []"
  shows "last (sort ps) = Max (set ps)"
proof -
  have ne: "sort ps \<noteq> []" using assms by (metis length_sort length_0_conv)
  have "Max (set ps) = last (sort ps)"
  proof (rule Max_eqI)
    show "finite (set ps)" by simp
    show "last (sort ps) \<in> set ps" using last_in_set [OF ne] by simp
    fix y assume "y \<in> set ps"
    then show "y \<le> last (sort ps)" using sorted_le_last [of "sort ps" y] by simp
  qed
  then show ?thesis by simp
qed

lemma highest_pages:
  assumes "pagesFrom conn listenerArn None w outs w'"
  shows "highestListenerRulePriority conn listenerArn w
           = Some (Inr (highestOf (rulePriorities (concat (map DescribeRules_Rules outs)))), w')"
  using loop_pages [OF assms, of "[]"]
  by (simp add: highestListenerRulePriority_def highestOf_def last_sort_Max)

lemma ParseUint_loop_nonneg: "0 \<le> n \<Longrightarrow> 0 \<le> fst (ParseUint_loop ds n)"
proof (induction ds n rule: ParseUint_loop.induct)
  case (1 n)
  then show ?case by simp
next
  case (2 c cs n)
  then show ?case
    using isDigit_digitVal [of c] by (auto simp: Let_def)
qed

lemma Atoi_range: "- (2 ^ 63) \<le> fst (Atoi s) \<and> fst (Atoi s) \<le> 2 ^ 63 - 1"
proof (cases "s = []")
  case True
  then show ?thesis by (simp add: Atoi_def)
next
  case s: False
  define ds where "ds = (if hd s = CHR ''+'' \<or> hd s = CHR ''-'' then tl s else s)"
  show ?thesis
  proof (cases "ds = []")
    case True
    then have "Atoi s = (0, Some (NumError s ErrSyntax))"
      unfolding Atoi_def Let_def ds_def [symmetric] using s by simp
    then show ?thesis by simp
  next
    case ds: False
    obtain un e where p: "ParseUint_loop ds 0 = (un, e)" by (cases "ParseUint_loop ds 0")
    have "0 \<le> un" using ParseUint_loop_nonneg [of 0 ds] p by simp
    with Atoi_unfold [OF s ds_def ds p] show ?thesis by (auto split: if_splits)
  qed
qed

lemma highestOf_range:
  "- (2 ^ 63) \<le> highestOf (rulePriorities rules) \<and> highestOf (rulePriorities rules) \<le> 2 ^ 63 - 1"
proof (cases "rulePriorities rules = []")
  case True
  then show ?thesis by (simp add: highestOf_def)
next
  case False
  then have "Max (set (rulePriorities rules)) \<in> set (rulePriorities rules)"
    by (intro Max_in) simp_all
  then obtain s where "Max (set (rulePriorities rules)) = fst (Atoi s)"
    by (auto simp: rulePriorities_def)
  with False Atoi_range [of s] show ?thesis by (simp add: highestOf_def)
qed

lemma int64_succ:
  assumes "- (2 ^ 63) \<le> h" "h \<le> 2 ^ 63 - 1"
  shows "int64 (h + 1) = (if h = 2 ^ 63 - 1 then - (2 ^ 63) else h + 1)"
proof (cases "h = 2 ^ 63 - 1")
  case True
  then show ?thesis by (simp add: int64_def)
next
  case False
  with assms have "0 \<le> h + 1 + 2 ^ 63" "h + 1 + 2 ^ 63 < 2 ^ 64" by simp_all
  then have "(h + 1 + 2 ^ 63) mod 2 ^ 64 = h + 1 + 2 ^ 63" by (rule mod_pos_pos_trivial)
  with False show ?thesis by (simp add: int64_def)
qed

text \<open>
  C4 (as amended). When the configuration sets no priority, each attempt of the retry
  loop of Create asks for the rules of the listener page by page, following
  \<^verbatim>\<open>NextMarker\<close>, takes the highest priority among the rules that are not the default rule
  (0 when there is none) and calls \<^verbatim>\<open>CreateRule\<close> once, with that value plus one in
  \<^verbatim>\<open>int64\<close> arithmetic: exactly that value plus one, unless the highest priority is
  9223372036854775807, where the sum wraps around to -9223372036854775808. The attempt is
  retryable exactly when \<^verbatim>\<open>CreateRule\<close> fails with \<^verbatim>\<open>PriorityInUse\<close>.
\<close>

theorem createRuleAttempt_priority:
  assumes "pagesFrom elbconn listenerArn None w outs w1"
  shows "createRuleAttempt elbconn listenerArn (params, resp, w) =
     (let highest = highestOf (rulePriorities (concat (map DescribeRules_Rules outs)));
          params' = params\<lparr>Priority :=
                      Some (if highest = 2 ^ 63 - 1 then - (2 ^ 63) else highest + 1)\<rparr> in
      case CreateRule elbconn params' w1 of
        (Inl err, w2) \<Rightarrow>
          Some (Some (if isAWSErr err ErrCodePriorityInUseException []
                      then RetryableError err else NonRetryableError err), (params', None, w2))
      | (Inr out, w2) \<Rightarrow> Some (None, (params', Some out, w2)))"
proof -
  let ?h = "highestOf (rulePriorities (concat (map DescribeRules_Rules outs)))"
  have "int64 (?h + 1) = (if ?h = 2 ^ 63 - 1 then - (2 ^ 63) else ?h + 1)"
    using highestOf_range [of "concat (map DescribeRules_Rules outs)"] by (intro int64_succ) simp_all
  then show ?thesis
    by (simp add: createRuleAttempt_def highest_pages [OF assms] Let_def
          split: prod.splits sum.splits)
qed

lemma DescribeRules_apiPages:
  "DescribeRules (apiPages pages) input w =
     (let i = (case Marker input of None \<Rightarrow> 0 | Some m \<Rightarrow> length m) in
         (Inr \<lparr>NextMarker =
                 (if Suc i < length pages then Some (replicate (Suc i) CHR ''m'') else None),
               DescribeRules_Rules =
                 map (\<lambda>p. Rule (Some ''rule/1'') (Some p) [])
                     (if i < length pages then pages ! i else [])\<rparr>, w))"
  by (simp add: apiPages_def)

lemma CreateRule_apiPages:
  "CreateRule (apiPages pages) input w =
     (Inr \<lparr>CreateRule_Rules = [Rule (Some ''rule/2'') (Some ''new'') []]\<rparr>, w @ [input])"
  by (simp add: apiPages_def)

lemma pages_example:
  "pagesFrom (apiPages [[''5'', ''default''], [''12'', ''7'']]) ''listener/1'' None []
     [\<lparr>NextMarker = Some ''m'', DescribeRules_Rules =
         [Rule (Some ''rule/1'') (Some ''5'') [], Rule (Some ''rule/1'') (Some ''default'') []]\<rparr>,
      \<lparr>NextMarker = None, DescribeRules_Rules =
         [Rule (Some ''rule/1'') (Some ''12'') [], Rule (Some ''rule/1'') (Some ''7'') []]\<rparr>] []"
  by (rule next_page [where ?w1.0 = "[]"] last_page | simp add: DescribeRules_apiPages)+

text \<open>
  The theorem at a listener with two pages of rules, of the priorities 5 and default, and
  12 and 7: \<^verbatim>\<open>CreateRule\<close> is called once, with the priority 13.
\<close>

theorem createRuleAttempt_priority_witness:
  "createRuleAttempt (apiPages [[''5'', ''default''], [''12'', ''7'']]) ''listener/1''
       (exampleParams, None, [])
     = Some (None, (exampleParams\<lparr>Priority := Some 13\<rparr>,
          Some \<lparr>CreateRule_Rules = [Rule (Some ''rule/2'') (Some ''new'') []]\<rparr>,
          [exampleParams\<lparr>Priority := Some 13\<rparr>]))"
proof -
  have a: "Atoi ''5'' = (5, None)" "Atoi ''12'' = (12, None)" "Atoi ''7'' = (7, None)"
    by code_simp+
  have "highestOf (rulePriorities (concat (map DescribeRules_Rules
     [\<lparr>NextMarker = Some ''m'', DescribeRules_Rules =
         [Rule (Some ''rule/1'') (Some ''5'') [], Rule (Some ''rule/1'') (Some ''default'') []]\<rparr>,
      \<lparr>NextMarker = None, DescribeRules_Rules =
         [Rule (Some ''rule/1'') (Some ''12'') [], Rule (Some ''rule/1'') (Some ''7'') []]\<rparr>]))) = 12"
    by (simp add: highestOf_def rulePriorities_def StringValue_def a)
  with createRuleAttempt_priority [OF pages_example, of exampleParams None]
  show ?thesis by (simp add: CreateRule_apiPages Let_def)
qed

lemma highest_apiPages_maxint:
  "highestListenerRulePriority (apiPages [[''9223372036854775807'']]) ''listener/1'' []
     = Some (Inr 9223372036854775807, [])"
proof -
  have a: "Atoi ''9223372036854775807'' = (9223372036854775807, None)"
    by code_simp
  show ?thesis
    by (simp add: highestListenerRulePriority_def highestListenerRulePriority_loop.simps
         DescribeRules_apiPages StringValue_def aws_String_def a)
qed

text \<open>
  C4 as stated fails at the largest \<^verbatim>\<open>int64\<close>: with one rule of the priority
  9223372036854775807 the highest priority is 9223372036854775807, and \<^verbatim>\<open>CreateRule\<close> is
  called with -9223372036854775808, which is not that value plus one.
\<close>

theorem createRuleAttempt_priority_wraps_counterexample:
  "highestListenerRulePriority (apiPages [[''9223372036854775807'']]) ''listener/1'' []
     = Some (Inr 9223372036854775807, [])
   \<and> createRuleAttempt (apiPages [[''9223372036854775807'']]) ''listener/1'' (exampleParams, None, [])
     = Some (None, (exampleParams\<lparr>Priority := Some (- 9223372036854775808)\<rparr>,
          Some \<lparr>CreateRule_Rules = [Rule (Some ''rule/2'') (Some ''new'') []]\<rparr>,
          [exampleParams\<lparr>Priority := Some (- 9223372036854775808)\<rparr>]))"
  by (simp add: createRuleAttempt_def highest_apiPages_maxint CreateRule_apiPages int64_def Let_def)

subsection \<open>Retrying the creation\<close>

lemma createRuleAttempt_describe_error:
  assumes "highestListenerRulePriority elbconn listenerArn w = Some (Inl err, w1)"
  shows "createRuleAttempt elbconn listenerArn (params, resp, w)
           = Some (Some (NonRetryableError err), (params, resp, w1))"
  using assms by (simp add: createRuleAttempt_def)

lemma Retry_createRuleAttempt:
  assumes "\<forall>i<k. \<exists>highest w1 err.
              highestListenerRulePriority elbconn listenerArn (ws i) = Some (Inr highest, w1)
            \<and> CreateRule elbconn (params\<lparr>Priority := Some (int64 (highest + 1))\<rparr>) w1
                = (Inl err, ws (Suc i))
            \<and> isAWSErr err ErrCodePriorityInUseException []"
    and "k \<le> timeout"
    and "highestListenerRulePriority elbconn listenerArn (ws k) = Some (Inr highest, w1)"
    and "CreateRule elbconn (params\<lparr>Priority := Some (int64 (highest + 1))\<rparr>) w1 = (r, w')"
    and "\<forall>err. r = Inl err \<and> isAWSErr err ErrCodePriorityInUseException [] \<longrightarrow> k = timeout"
  shows "Retry timeout (createRuleAttempt elbconn listenerArn) (params\<lparr>Priority := x\<rparr>, resp, ws 0)
           = Some (case r of Inl err \<Rightarrow> Some err | Inr out \<Rightarrow> None,
                   (params\<lparr>Priority := Some (int64 (highest + 1))\<rparr>,
                    case r of Inl err \<Rightarrow> None | Inr out \<Rightarrow> Some out, w'))"
  using assms
proof (induction k arbitrary: ws timeout x resp)
  case 0
  show ?case
  proof (cases r)
    case (Inr out)
    with "0.prems"(3,4) show ?thesis by (simp add: createRuleAttempt_def)
  next
    case (Inl err)
    show ?thesis
    proof (cases "isAWSErr err ErrCodePriorityInUseException []")
      case True
      with Inl "0.prems"(5) have "timeout = 0" by simp
      with True Inl "0.prems"(3,4) show ?thesis by (simp add: createRuleAttempt_def)
    next
      case False
      with Inl "0.prems"(3,4) show ?thesis by (simp add: createRuleAttempt_def)
    qed
  qed
next
  case (Suc k)
  from Suc.prems(2) obtain m where m: "timeout = Suc m" by (cases timeout) auto
  from Suc.prems(1) obtain h0 v0 e0 where
    0: "highestListenerRulePriority elbconn listenerArn (ws 0) = Some (Inr h0, v0)"
       "CreateRule elbconn (params\<lparr>Priority := Some (int64 (h0 + 1))\<rparr>) v0 = (Inl e0, ws (Suc 0))"
       "isAWSErr e0 ErrCodePriorityInUseException []"
    by blast
  have first: "createRuleAttempt elbconn listenerArn (params\<lparr>Priority := x\<rparr>, resp, ws 0)
      = Some (Some (RetryableError e0), (params\<lparr>Priority := Some (int64 (h0 + 1))\<rparr>, None, ws (Suc 0)))"
    using 0 by (simp add: createRuleAttempt_def)
  have chain: "\<forall>i<k. \<exists>highest w1 err.
              highestListenerRulePriority elbconn listenerArn ((\<lambda>i. ws (Suc i)) i) = Some (Inr highest, w1)
            \<and> CreateRule elbconn (params\<lparr>Priority := Some (int64 (highest + 1))\<rparr>) w1
                = (Inl err, (\<lambda>i. ws (Suc i)) (Suc i))
            \<and> isAWSErr err ErrCodePriorityInUseException []"
    using Suc.prems(1) by simp
  have "Retry m (createRuleAttempt elbconn listenerArn)
          (params\<lparr>Priority := Some (int64 (h0 + 1))\<rparr>, None, (\<lambda>i. ws (Suc i)) 0)
        = Some (case r of Inl err \<Rightarrow> Some err | Inr out \<Rightarrow> None,
                   (params\<lparr>Priority := Some (int64 (highest + 1))\<rparr>,
                    case r of Inl err \<Rightarrow> None | Inr out \<Rightarrow> Some out, w'))"
    by (rule Suc.IH [OF chain]) (use Suc.prems m in simp_all)
  with first m show ?case by simp
qed

text \<open>
  C3 (as amended). During Create with no priority in the configuration, an attempt on
  which \<^verbatim>\<open>CreateRule\<close> fails with the AWS error code \<^verbatim>\<open>PriorityInUse\<close> is followed by a
  further attempt, with a freshly computed priority, for as long as the retry window of
  \<^verbatim>\<open>resource.Retry\<close> (five minutes) has room for one: after any number \<open>k\<close> of such
  failures that the window allows, the outcome of the next attempt is the outcome of the
  block. If that attempt succeeds, its response is the result; if it fails with another
  error, or with \<^verbatim>\<open>PriorityInUse\<close> when the window is used up, Create returns at once with
  that error wrapped in \<^verbatim>\<open>Error creating LB Listener Rule\<close>. In particular (\<open>k = 0\<close>) an
  error with a different code on the first attempt is not retried.
\<close>

theorem createRuleWithPriority_retry:
  assumes "GetOk_priority d = None"
    and "\<forall>i<k. \<exists>highest w1 err.
              highestListenerRulePriority elbconn listenerArn (ws i) = Some (Inr highest, w1)
            \<and> CreateRule elbconn (params\<lparr>Priority := Some (int64 (highest + 1))\<rparr>) w1
                = (Inl err, ws (Suc i))
            \<and> isAWSErr err ErrCodePriorityInUseException []"
    and "k \<le> timeout"
    and "highestListenerRulePriority elbconn listenerArn (ws k) = Some (Inr highest, w1)"
    and "CreateRule elbconn (params\<lparr>Priority := Some (int64 (highest + 1))\<rparr>) w1 = (r, w')"
    and "\<forall>err. r = Inl err \<and> isAWSErr err ErrCodePriorityInUseException [] \<longrightarrow> k = timeout"
  shows "createRuleWithPriority timeout elbconn d listenerArn params (ws 0) =
           Some (case r of
                   Inl err \<Rightarrow> Inl (Errorf ''Error creating LB Listener Rule: %v'' [] (Some err))
                 | Inr out \<Rightarrow> Inr out, w')"
proof -
  have "params\<lparr>Priority := Priority params\<rparr> = params" by simp
  with Retry_createRuleAttempt [OF assms(2-6), of "Priority params" None]
  have "Retry timeout (createRuleAttempt elbconn listenerArn) (params, None, ws 0)
           = Some (case r of Inl err \<Rightarrow> Some err | Inr out \<Rightarrow> None,
                   (params\<lparr>Priority := Some (int64 (highest + 1))\<rparr>,
                    case r of Inl err \<Rightarrow> None | Inr out \<Rightarrow> Some out, w'))"
    by simp
  then show ?thesis
    using assms(1) by (cases r) (simp_all add: createRuleWithPriority_def)
qed

lemma highest_apiPriorityInUse:
  "highestListenerRulePriority (apiPriorityInUse k) ''listener/1'' n = Some (Inr 0, n)"
  by (simp add: highestListenerRulePriority_def highestListenerRulePriority_loop.simps apiPriorityInUse_def
     aws_String_def)

lemma CreateRule_apiPriorityInUse:
  "CreateRule (apiPriorityInUse k) input n =
     (if n < k then (Inl (AWSError ''PriorityInUse'' ''Priority is in use''), Suc n)
      else (Inr \<lparr>CreateRule_Rules = [Rule (Some ''rule/1'') (Some ''1'') []]\<rparr>, Suc n))"
  by (simp add: apiPriorityInUse_def)

lemma isAWSErr_PriorityInUse:
  "isAWSErr (AWSError ''PriorityInUse'' m) ErrCodePriorityInUseException []"
  by (simp add: isAWSErr_def ErrCodePriorityInUseException_def strings_Contains_def)

lemma attempt_apiPriorityInUse:
  "createRuleAttempt (apiPriorityInUse k) ''listener/1'' (params, resp, n) =
     (if n < k
      then Some (Some (RetryableError (AWSError ''PriorityInUse'' ''Priority is in use'')),
                 (params\<lparr>Priority := Some 1\<rparr>, None, Suc n))
      else Some (None, (params\<lparr>Priority := Some 1\<rparr>,
                 Some \<lparr>CreateRule_Rules = [Rule (Some ''rule/1'') (Some ''1'') []]\<rparr>, Suc n)))"
  by (simp add: createRuleAttempt_def highest_apiPriorityInUse CreateRule_apiPriorityInUse
      isAWSErr_PriorityInUse int64_def Let_def)

text \<open>
  The theorem at a listener on which \<^verbatim>\<open>CreateRule\<close> fails twice with \<^verbatim>\<open>PriorityInUse\<close>, with
  a window of five further attempts: the third call succeeds.
\<close>

theorem createRuleWithPriority_retry_witness:
  "createRuleWithPriority 5 (apiPriorityInUse 2) exampleData ''listener/1'' exampleParams 0
     = Some (Inr \<lparr>CreateRule_Rules = [Rule (Some ''rule/1'') (Some ''1'') []]\<rparr>, 3)"
proof -
  have 1: "GetOk_priority exampleData = None"
    by (simp add: GetOk_priority_def exampleData_def)
  have 2: "\<forall>i<2. \<exists>highest w1 err.
              highestListenerRulePriority (apiPriorityInUse 2) ''listener/1'' ((\<lambda>i. i) i)
                = Some (Inr highest, w1)
            \<and> CreateRule (apiPriorityInUse 2) (exampleParams\<lparr>Priority := Some (int64 (highest + 1))\<rparr>) w1
                = (Inl err, (\<lambda>i. i) (Suc i))
            \<and> isAWSErr err ErrCodePriorityInUseException []"
    by (simp add: highest_apiPriorityInUse CreateRule_apiPriorityInUse isAWSErr_PriorityInUse)
  have 3: "(2::nat) \<le> 5" by simp
  have 4: "highestListenerRulePriority (apiPriorityInUse 2) ''listener/1'' ((\<lambda>i. i) 2) = Some (Inr 0, 2)"
    by (simp add: highest_apiPriorityInUse)
  have 5: "CreateRule (apiPriorityInUse 2) (exampleParams\<lparr>Priority := Some (int64 (0 + 1))\<rparr>) 2
      = (Inr \<lparr>CreateRule_Rules = [Rule (Some ''rule/1'') (Some ''1'') []]\<rparr>, 3)"
    by (simp add: CreateRule_apiPriorityInUse)
  have 6: "\<forall>err. Inr \<lparr>CreateRule_Rules = [Rule (Some ''rule/1'') (Some ''1'') []]\<rparr> = Inl err
      \<and> isAWSErr err ErrCodePriorityInUseException [] \<longrightarrow> (2::nat) = 5"
    by simp
  from createRuleWithPriority_retry [OF 1 2 3 4 5 6] show ?thesis by simp
qed

text \<open>
  C3 as stated fails where \<^verbatim>\<open>PriorityInUse\<close> comes twice: with a single retry Create
  would give up after the second failure; the code makes a third call of \<^verbatim>\<open>CreateRule\<close>
  (the world counts three calls) and succeeds. The retry waits of
  \<^verbatim>\<open>resource.Retry\<close> start below a second and stay below ten seconds, so its five-minute
  window has room for more than two further attempts.
\<close>

theorem createRuleWithPriority_retried_twice_counterexample:
  "createRuleWithPriority 2 (apiPriorityInUse 2) exampleData ''listener/1'' exampleParams 0
     = Some (Inr \<lparr>CreateRule_Rules = [Rule (Some ''rule/1'') (Some ''1'') []]\<rparr>, 3)"
  by (simp add: createRuleWithPriority_def GetOk_priority_def exampleData_def attempt_apiPriorityInUse
      numeral_2_eq_2 numeral_3_eq_3)


subsection \<open>Create as a whole\<close>

text \<open>
  Create returns the error of the expansion without calling AWS, and the error of the
  creation block as it is; the rule ARN of the response becomes the id before the rule is
  read back.
\<close>

lemma resourceAwsLbListenerRuleCreate_conditions_error:
  assumes "lbListenerRuleConditions (attr_condition d) = Inl err"
  shows "resourceAwsLbListenerRuleCreate timeout readTimeout elbconn d actions w
           = Some ((Some err, d), w)"
  using assms by (simp add: resourceAwsLbListenerRuleCreate_def)

lemma resourceAwsLbListenerRuleCreate_create_error:
  assumes "lbListenerRuleConditions (attr_condition d) = Inr elbConditions"
    and "createRuleWithPriority timeout elbconn d (attr_listener_arn d)
           \<lparr>ListenerArn = Some (attr_listener_arn d), Actions = actions,
            Conditions = elbConditions, Priority = None\<rparr> w = Some (Inl err, w')"
  shows "resourceAwsLbListenerRuleCreate timeout readTimeout elbconn d actions w
           = Some ((Some err, d), w')"
  using assms by (simp add: resourceAwsLbListenerRuleCreate_def aws_String_def)

lemma resourceAwsLbListenerRuleCreate_created:
  assumes "lbListenerRuleConditions (attr_condition d) = Inr elbConditions"
    and "createRuleWithPriority timeout elbconn d (attr_listener_arn d)
           \<lparr>ListenerArn = Some (attr_listener_arn d), Actions = actions,
            Conditions = elbConditions, Priority = None\<rparr> w = Some (Inr resp, w')"
    and "CreateRule_Rules resp = rule # rules"
  shows "resourceAwsLbListenerRuleCreate timeout readTimeout elbconn d actions w
           = resourceAwsLbListenerRuleRead readTimeout elbconn
               (d\<lparr>Id := StringValue (RuleArn rule)\<rparr>) w'"
  using assms by (simp add: resourceAwsLbListenerRuleCreate_def aws_String_def)

end
